theory Spec2Isabelle
  imports Complex_Main
begin

section \<open>Data model of NodeWrapper.ts and TokenWrapper.ts\<close>

text \<open>
  JavaScript numbers are modelled as real numbers; the rounding errors, the
  infinities and the NaN of binary64 floating point are left out. \<open>Math.round\<close>
  rounds to the nearest integer with ties going towards plus infinity, which on
  the reals is \<open>floor (x + 1/2)\<close>. For the arithmetic of \<open>snapToGrid\<close> the reals
  and binary64 give the same result on every binary64 coordinate of magnitude
  up to \<open>2^52\<close>: the quotient by 50, rounded to binary64, lies on the same side of
  every \<open>k + 1/2\<close> as the exact quotient, and \<open>k * 50\<close> is exact. Beyond that
  range the two differ (from about \<open>1.5e16\<close> up), so statements about the values
  that \<open>snapToGrid\<close> computes are made within the range.

  Modelled are the constructors, \<open>toSerializable\<close>, \<open>createKonvaObjects\<close>, the
  methods that change how a node looks when it is selected, hovered, dragged or
  in error, \<open>snapToGrid\<close>, and the six event handlers. The label and accept-state
  setters, \<open>adjustFontSize\<close>, \<open>updateColorScheme\<close> and \<open>deleteKonvaObjects\<close> are
  not needed for the properties below and are left out.
\<close>

definition Math_round :: "real \<Rightarrow> real" where
  "Math_round r = of_int \<lfloor>r + 1 / 2\<rfloor>"

text \<open>Konva's \<open>Vector2d\<close>, the fields \<open>x\<close> and \<open>y\<close>.\<close>

record Vector2d =
  vec_x :: real
  vec_y :: real

text \<open>
  The tool enumeration is imported from \<open>./Tool\<close>. The handlers compare the
  current tool with \<open>Select\<close>, \<open>States\<close> and \<open>Transitions\<close> only; every other
  member of the enumeration falls through all the branches and is \<open>OtherTool\<close>.
\<close>

datatype Tool = Select | States | Transitions | OtherTool

text \<open>Objects live on a heap and are compared by reference (\<open>===\<close>).\<close>

type_synonym ref = nat

text \<open>
  A \<open>SelectableObject\<close> is a node or something else (a transition); the handlers
  tell them apart with \<open>instanceof NodeWrapper\<close>.
\<close>

datatype SelectableObject = NodeObj ref | TransitionObj ref

text \<open>The fields of \<open>StateManager.colorScheme\<close> that the node reads.\<close>

record ColorScheme =
  nodeFill :: string
  nodeStrokeColor :: string
  selectedNodeStrokeColor :: string
  nodeAcceptStrokeColor :: string
  nodeLabelColor :: string
  newConnectionGlowColor :: string
  newConnectionShadowOpacity :: real
  newConnectionShadowBlur :: real
  nodeDragDropShadowColor :: string
  nodeDragDropShadowOpacity :: real
  nodeDragDropShadowBlur :: real

text \<open>
  The attributes of the background circle that the node sets. A shadow colour,
  offset, opacity or blur that was never set is \<open>None\<close>; Konva's default for
  \<open>shadowEnabled\<close> is true.
\<close>

record KonvaCircle =
  fill :: string
  stroke :: string
  strokeWidth :: real
  shadowColor :: "string option"
  shadowOffset :: "Vector2d option"
  shadowOpacity :: "real option"
  shadowBlur :: "real option"
  shadowEnabled :: bool

text \<open>
  A child of the node's group: its Konva class and its \<open>name\<close> attribute (the
  empty string when no name was given). \<open>find('.errorIcon, .errorText')\<close> selects by
  name.
\<close>

datatype ShapeClass = Circle | Text

record KonvaChild =
  className :: ShapeClass
  childName :: string

record KonvaGroup =
  group_x :: real
  group_y :: real
  draggable :: bool
  isDragging :: bool
  children :: "KonvaChild list"

text \<open>
  The four Konva fields of a node (\<open>nodeGroup\<close>, \<open>nodeBackground\<close>,
  \<open>nodeAcceptCircle\<close>, \<open>nodeLabel\<close>) are assigned together by
  \<open>createKonvaObjects\<close> and are undefined before that call.
\<close>

record NodeView =
  nodeGroup :: KonvaGroup
  nodeBackground :: KonvaCircle
  nodeAcceptCircle_visible :: bool
  nodeAcceptCircle_stroke :: string
  nodeLabel_text :: string
  nodeLabel_fontSize :: real
  nodeLabel_fill :: string

record NodeWrapper =
  view :: "NodeView option"
  lastPos :: "Vector2d option"
  lastSnappedPos :: Vector2d
  isAcceptNode :: bool
  labelText :: string
  node_id :: string

record SerializableState =
  ser_id :: string
  ser_x :: real
  ser_y :: real
  ser_label :: string

record TokenWrapper =
  symbol :: string
  token_id :: string

record SerializableToken =
  stok_id :: string
  stok_symbol :: string

text \<open>Reading or calling a field of \<open>undefined\<close> raises a \<open>TypeError\<close>.\<close>

datatype error = TypeError

section \<open>TokenWrapper\<close>

text \<open>
  \<open>constructor(symbol = null, id = null)\<close>; the last argument is the value that
  \<open>uuidv4()\<close> returns when no id is supplied.
\<close>

definition TokenWrapper_new :: "string option \<Rightarrow> string option \<Rightarrow> string \<Rightarrow> TokenWrapper" where
  "TokenWrapper_new smb ident uuid =
     \<lparr>symbol = (case smb of None \<Rightarrow> '''' | Some t \<Rightarrow> t),
      token_id = (case ident of None \<Rightarrow> uuid | Some i \<Rightarrow> i)\<rparr>"

text \<open>
  \<open>toSerializable()\<close> of a token: the serializable object it returns, and the
  token as the call leaves it.
\<close>

definition token_toSerializable :: "TokenWrapper \<Rightarrow> SerializableToken \<times> TokenWrapper" where
  "token_toSerializable t = (\<lparr>stok_id = token_id t, stok_symbol = symbol t\<rparr>, t)"

section \<open>NodeWrapper: construction and the methods on one node\<close>

definition NodeWrapper_new :: "string \<Rightarrow> string option \<Rightarrow> string \<Rightarrow> NodeWrapper" where
  "NodeWrapper_new lbl ident uuid =
     \<lparr>view = None,
      lastPos = None,
      lastSnappedPos = \<lparr>vec_x = 0, vec_y = 0\<rparr>,
      isAcceptNode = False,
      labelText = lbl,
      node_id = (case ident of None \<Rightarrow> uuid | Some i \<Rightarrow> i)\<rparr>"

definition StrokeWidth :: real where
  "StrokeWidth = 2"

definition SelectedStrokeWidth :: real where
  "SelectedStrokeWidth = 4"

definition unnamedChild :: "ShapeClass \<Rightarrow> KonvaChild" where
  "unnamedChild c = \<lparr>className = c, childName = ''''\<rparr>"

definition createKonvaObjects :: "ColorScheme \<Rightarrow> real \<Rightarrow> real \<Rightarrow> NodeWrapper \<Rightarrow> NodeWrapper" where
  "createKonvaObjects cs px py n =
     n\<lparr>view := Some
        \<lparr>nodeGroup =
           \<lparr>group_x = px, group_y = py, draggable = True, isDragging = False,
            children = [unnamedChild Circle, unnamedChild Circle, unnamedChild Text]\<rparr>,
         nodeBackground =
           \<lparr>fill = nodeFill cs, stroke = nodeStrokeColor cs, strokeWidth = StrokeWidth,
            shadowColor = None, shadowOffset = None, shadowOpacity = None,
            shadowBlur = None, shadowEnabled = True\<rparr>,
         nodeAcceptCircle_visible = isAcceptNode n,
         nodeAcceptCircle_stroke = nodeAcceptStrokeColor cs,
         nodeLabel_text = labelText n,
         nodeLabel_fontSize = 15,
         nodeLabel_fill = nodeLabelColor cs\<rparr>\<rparr>"

text \<open>A method that uses the Konva fields: it raises when they are undefined.\<close>

definition withView :: "NodeWrapper \<Rightarrow> (NodeView \<Rightarrow> NodeView) \<Rightarrow> error + NodeWrapper" where
  "withView n f =
     (case view n of
        None \<Rightarrow> Inl TypeError
      | Some v \<Rightarrow> Inr (n\<lparr>view := Some (f v)\<rparr>))"

definition position :: "KonvaGroup \<Rightarrow> Vector2d" where
  "position g = \<lparr>vec_x = group_x g, vec_y = group_y g\<rparr>"

definition select :: "ColorScheme \<Rightarrow> NodeWrapper \<Rightarrow> error + NodeWrapper" where
  "select cs n =
     withView n (\<lambda>v. v\<lparr>nodeBackground :=
       (nodeBackground v)\<lparr>stroke := selectedNodeStrokeColor cs, strokeWidth := SelectedStrokeWidth\<rparr>\<rparr>)"

definition deselect :: "ColorScheme \<Rightarrow> NodeWrapper \<Rightarrow> error + NodeWrapper" where
  "deselect cs n =
     withView n (\<lambda>v. v\<lparr>nodeBackground :=
       (nodeBackground v)\<lparr>stroke := nodeStrokeColor cs, strokeWidth := StrokeWidth\<rparr>\<rparr>)"

definition enableNewConnectionGlow :: "ColorScheme \<Rightarrow> NodeWrapper \<Rightarrow> error + NodeWrapper" where
  "enableNewConnectionGlow cs n =
     withView n (\<lambda>v. v\<lparr>nodeBackground :=
       (nodeBackground v)\<lparr>shadowColor := Some (newConnectionGlowColor cs),
                          shadowOffset := Some \<lparr>vec_x = 0, vec_y = 0\<rparr>,
                          shadowOpacity := Some (newConnectionShadowOpacity cs),
                          shadowBlur := Some (newConnectionShadowBlur cs),
                          shadowEnabled := True\<rparr>\<rparr>)"

definition disableShadowEffects :: "NodeWrapper \<Rightarrow> error + NodeWrapper" where
  "disableShadowEffects n =
     withView n (\<lambda>v. v\<lparr>nodeBackground := (nodeBackground v)\<lparr>shadowEnabled := False\<rparr>\<rparr>)"

definition enableDragDropShadow :: "ColorScheme \<Rightarrow> NodeWrapper \<Rightarrow> error + NodeWrapper" where
  "enableDragDropShadow cs n =
     withView n (\<lambda>v. v\<lparr>nodeBackground :=
       (nodeBackground v)\<lparr>shadowColor := Some (nodeDragDropShadowColor cs),
                          shadowOffset := Some \<lparr>vec_x = 0, vec_y = 3\<rparr>,
                          shadowOpacity := Some (nodeDragDropShadowOpacity cs),
                          shadowBlur := Some (nodeDragDropShadowBlur cs),
                          shadowEnabled := True\<rparr>\<rparr>)"

definition setPosition :: "Vector2d \<Rightarrow> NodeWrapper \<Rightarrow> error + NodeWrapper" where
  "setPosition p n =
     withView n (\<lambda>v. v\<lparr>nodeGroup := (nodeGroup v)\<lparr>group_x := vec_x p, group_y := vec_y p\<rparr>\<rparr>)"

text \<open>
  \<open>setErrorState\<close>: every child named \<open>errorIcon\<close> or \<open>errorText\<close> is destroyed,
  which removes it from the group; then the marker is added, or the default
  colours are restored. The request to redraw the layer changes nothing here.
\<close>

definition isErrorElement :: "KonvaChild \<Rightarrow> bool" where
  "isErrorElement c \<longleftrightarrow> childName c = ''errorIcon'' \<or> childName c = ''errorText''"

definition errorIcon :: KonvaChild where
  "errorIcon = \<lparr>className = Circle, childName = ''errorIcon''\<rparr>"

definition errorText :: KonvaChild where
  "errorText = \<lparr>className = Text, childName = ''errorText''\<rparr>"

definition setErrorState :: "ColorScheme \<Rightarrow> bool \<Rightarrow> NodeWrapper \<Rightarrow> error + NodeWrapper" where
  "setErrorState cs isError n =
     withView n (\<lambda>v.
       let kept = filter (\<lambda>c. \<not> isErrorElement c) (children (nodeGroup v)) in
       if isError then
         v\<lparr>nodeBackground :=
             (nodeBackground v)\<lparr>fill := ''rgb(254, 226, 225)'',
                                stroke := ''rgb(220, 38, 37)'',
                                strokeWidth := 4\<rparr>,
           nodeGroup := (nodeGroup v)\<lparr>children := kept @ [errorIcon, errorText]\<rparr>\<rparr>
       else
         v\<lparr>nodeBackground :=
             (nodeBackground v)\<lparr>fill := nodeFill cs,
                                stroke := nodeStrokeColor cs,
                                strokeWidth := StrokeWidth\<rparr>,
           nodeGroup := (nodeGroup v)\<lparr>children := kept\<rparr>\<rparr>)"

text \<open>\<open>nodeGroup.stopDrag()\<close>: the group is no longer being dragged.\<close>

definition stopDrag :: "NodeWrapper \<Rightarrow> error + NodeWrapper" where
  "stopDrag n = withView n (\<lambda>v. v\<lparr>nodeGroup := (nodeGroup v)\<lparr>isDragging := False\<rparr>\<rparr>)"

section \<open>The shared state and the collaborators\<close>

text \<open>
  The mouse event fields that the handlers read (\<open>ev.evt\<close>).
\<close>

record MouseEvent =
  shiftKey :: bool
  movementX :: real
  movementY :: real
  pageX :: real
  pageY :: real

text \<open>
  Modelled from the spec: the transition class is not among the sources. A
  transition is ``a relation between two Node identities''; \<open>involvesNode\<close> holds
  for its two end points.
\<close>

record TransitionWrapper =
  transition_ref :: ref
  sourceNode :: ref
  destNode :: ref

definition involvesNode :: "TransitionWrapper \<Rightarrow> ref \<Rightarrow> bool" where
  "involvesNode t r \<longleftrightarrow> sourceNode t = r \<or> destNode t = r"

text \<open>
  The calls that leave the two classes: the methods of \<open>StateManager\<close> whose body
  is elsewhere, the methods of transitions, and the Konva event \<open>move\<close> fired on
  a node. They are recorded in the order in which they happen.
\<close>

datatype Call =
    StartTentativeTransition ref
  | UpdateTentativeTransitionHead real real
  | EndTentativeTransition
  | StartDragStatesOperation "Vector2d option"
  | CompleteDragStatesOperation Vector2d
  | UpdateStartNodePosition
  | UpdatePoints ref
  | FireMove ref
  | TransitionSelect ref
  | TransitionDeselect ref

text \<open>
  The static fields of \<open>StateManager\<close> that the node reads, the heap of nodes,
  and the record of calls.
\<close>

record AppState =
  currentTool :: Tool
  selectedObjects :: "SelectableObject list"
  snapToGridEnabled :: bool
  tentativeTransitionInProgress :: bool
  tentativeTransitionTarget :: "ref option"
  transitions :: "TransitionWrapper list"
  colorScheme :: ColorScheme
  heap :: "ref \<Rightarrow> NodeWrapper"
  calls :: "Call list"

definition andThen :: "error + 'a \<Rightarrow> ('a \<Rightarrow> error + 'b) \<Rightarrow> error + 'b" where
  "andThen m f = (case m of Inl e \<Rightarrow> Inl e | Inr a \<Rightarrow> f a)"

definition logCall :: "Call \<Rightarrow> AppState \<Rightarrow> AppState" where
  "logCall c s = s\<lparr>calls := calls s @ [c]\<rparr>"

text \<open>Calling a method of the node at a reference.\<close>

definition onNode :: "ref \<Rightarrow> (NodeWrapper \<Rightarrow> error + NodeWrapper) \<Rightarrow> AppState \<Rightarrow> error + AppState" where
  "onNode r m s =
     (case m (heap s r) of
        Inl e \<Rightarrow> Inl e
      | Inr n \<Rightarrow> Inr (s\<lparr>heap := (heap s)(r := n)\<rparr>))"

text \<open>
  \<open>objs.forEach(obj => { if (obj instanceof NodeWrapper) obj.m() })\<close>.
\<close>

fun forEachNode :: "(NodeWrapper \<Rightarrow> error + NodeWrapper) \<Rightarrow> SelectableObject list \<Rightarrow> AppState \<Rightarrow> error + AppState" where
  "forEachNode m [] s = Inr s"
| "forEachNode m (NodeObj r # objs) s = andThen (onNode r m s) (forEachNode m objs)"
| "forEachNode m (TransitionObj t # objs) s = forEachNode m objs s"

text \<open>
  Modelled from the spec: \<open>StateManager.selectObject\<close> is not among the sources.
  ``\<open>select(obj)\<close>: adds \<open>obj\<close> to the selection set and applies
  selected-visual-state to it. Idempotent if already selected.''
\<close>

definition selectObject :: "SelectableObject \<Rightarrow> AppState \<Rightarrow> error + AppState" where
  "selectObject obj s =
     (if obj \<in> set (selectedObjects s) then Inr s
      else andThen
        (case obj of
           NodeObj r \<Rightarrow> onNode r (select (colorScheme s)) s
         | TransitionObj t \<Rightarrow> Inr (logCall (TransitionSelect t) s))
        (\<lambda>s1. Inr (s1\<lparr>selectedObjects := selectedObjects s1 @ [obj]\<rparr>)))"

text \<open>
  Modelled from the spec: \<open>StateManager.deselectAllObjects\<close> is not among the
  sources. ``\<open>deselectAll()\<close>: removes every object from the set, applying
  unselected-visual-state to each; no-op on empty set.''
\<close>

fun deselectEach :: "SelectableObject list \<Rightarrow> AppState \<Rightarrow> error + AppState" where
  "deselectEach [] s = Inr s"
| "deselectEach (NodeObj r # objs) s =
     andThen (onNode r (deselect (colorScheme s)) s) (deselectEach objs)"
| "deselectEach (TransitionObj t # objs) s =
     deselectEach objs (logCall (TransitionDeselect t) s)"

definition deselectAllObjects :: "AppState \<Rightarrow> error + AppState" where
  "deselectAllObjects s =
     andThen (deselectEach (selectedObjects s) s) (\<lambda>s1. Inr (s1\<lparr>selectedObjects := []\<rparr>))"

text \<open>
  Modelled from the spec: the tentative transition lives in \<open>StateManager\<close>, which
  is not among the sources. Beginning one ``creates the tentative transition
  record'' with no target; ending one clears the record ``unconditionally''; the
  head follows the pointer. The node reads back only whether a tentative
  transition is in progress and which node is its target.
\<close>

definition startTentativeTransition :: "ref \<Rightarrow> AppState \<Rightarrow> AppState" where
  "startTentativeTransition r s =
     logCall (StartTentativeTransition r)
       (s\<lparr>tentativeTransitionInProgress := True, tentativeTransitionTarget := None\<rparr>)"

definition updateTentativeTransitionHead :: "real \<Rightarrow> real \<Rightarrow> AppState \<Rightarrow> AppState" where
  "updateTentativeTransitionHead px py s = logCall (UpdateTentativeTransitionHead px py) s"

definition endTentativeTransition :: "AppState \<Rightarrow> AppState" where
  "endTentativeTransition s =
     logCall EndTentativeTransition
       (s\<lparr>tentativeTransitionInProgress := False, tentativeTransitionTarget := None\<rparr>)"

text \<open>
  The operation log and the start-node marker are kept by \<open>StateManager\<close>; the
  node only calls them.
\<close>

definition startDragStatesOperation :: "Vector2d option \<Rightarrow> AppState \<Rightarrow> AppState" where
  "startDragStatesOperation p s = logCall (StartDragStatesOperation p) s"

definition completeDragStatesOperation :: "Vector2d \<Rightarrow> AppState \<Rightarrow> AppState" where
  "completeDragStatesOperation p s = logCall (CompleteDragStatesOperation p) s"

definition updateStartNodePosition :: "AppState \<Rightarrow> AppState" where
  "updateStartNodePosition s = logCall UpdateStartNodePosition s"

text \<open>\<open>this.nodeGroup.position()\<close> of the node at a reference.\<close>

definition nodePosition :: "ref \<Rightarrow> AppState \<Rightarrow> error + Vector2d" where
  "nodePosition r s =
     (case view (heap s r) of
        None \<Rightarrow> Inl TypeError
      | Some v \<Rightarrow> Inr (position (nodeGroup v)))"

text \<open>
  \<open>toSerializable()\<close> of the node at a reference: the serializable object it
  returns, and the state as the call leaves it. It raises when the node has no
  Konva objects.
\<close>

definition node_toSerializable :: "ref \<Rightarrow> AppState \<Rightarrow> error + (SerializableState \<times> AppState)" where
  "node_toSerializable this s =
     (case view (heap s this) of
        None \<Rightarrow> Inl TypeError
      | Some v \<Rightarrow>
          Inr (\<lparr>ser_id = node_id (heap s this),
                ser_x = group_x (nodeGroup v),
                ser_y = group_y (nodeGroup v),
                ser_label = labelText (heap s this)\<rparr>, s))"

section \<open>The event handlers of a node\<close>

definition onClick :: "MouseEvent \<Rightarrow> ref \<Rightarrow> AppState \<Rightarrow> error + AppState" where
  "onClick ev this s =
     (if currentTool s = Select then
        andThen (if \<not> shiftKey ev then deselectAllObjects s else Inr s)
          (selectObject (NodeObj this))
      else Inr s)"

definition onMouseEnter :: "ref \<Rightarrow> AppState \<Rightarrow> error + AppState" where
  "onMouseEnter this s =
     (if currentTool s = Transitions \<and> tentativeTransitionInProgress s then
        onNode this (enableNewConnectionGlow (colorScheme s))
          (s\<lparr>tentativeTransitionTarget := Some this\<rparr>)
      else Inr s)"

definition onMouseLeave :: "ref \<Rightarrow> AppState \<Rightarrow> error + AppState" where
  "onMouseLeave this s =
     (if currentTool s = Transitions then
        (if tentativeTransitionInProgress s \<and> tentativeTransitionTarget s = Some this then
           onNode this disableShadowEffects (s\<lparr>tentativeTransitionTarget := None\<rparr>)
         else Inr s)
      else Inr s)"

definition onDragStart :: "MouseEvent \<Rightarrow> ref \<Rightarrow> AppState \<Rightarrow> error + AppState" where
  "onDragStart ev this s =
     andThen (nodePosition this s) (\<lambda>p.
       let s0 = s\<lparr>heap := (heap s)(this := (heap s this)\<lparr>lastPos := Some p\<rparr>)\<rparr> in
       if currentTool s0 = States then
         onNode this stopDrag s0
       else if currentTool s0 = Transitions then
         Inr (startTentativeTransition this s0)
       else if currentTool s0 = Select then
         andThen
           (if \<not> shiftKey ev \<and> length (selectedObjects s0) = 1
            then deselectAllObjects s0 else Inr s0)
           (\<lambda>s1. andThen (selectObject (NodeObj this) s1)
           (\<lambda>s2. andThen
              (forEachNode (enableDragDropShadow (colorScheme s2)) (selectedObjects s2) s2)
           (\<lambda>s3. Inr (startDragStatesOperation (lastPos (heap s3 this)) s3))))
       else Inr s0)"

text \<open>
  In the loop of \<open>onDragMove\<close> every other selected node is moved by the
  movement of the mouse and then fires \<open>move\<close>.
\<close>

definition moveBy :: "MouseEvent \<Rightarrow> NodeWrapper \<Rightarrow> error + NodeWrapper" where
  "moveBy ev n =
     withView n (\<lambda>v. v\<lparr>nodeGroup := (nodeGroup v)
       \<lparr>group_x := group_x (nodeGroup v) + movementX ev,
        group_y := group_y (nodeGroup v) + movementY ev\<rparr>\<rparr>)"

text \<open>\<open>konvaObject().fire('move', ev)\<close> on the node at a reference.\<close>

definition fireMove :: "ref \<Rightarrow> AppState \<Rightarrow> error + AppState" where
  "fireMove r s =
     (case view (heap s r) of
        None \<Rightarrow> Inl TypeError
      | Some v \<Rightarrow> Inr (logCall (FireMove r) s))"

fun moveOthers :: "MouseEvent \<Rightarrow> SelectableObject list \<Rightarrow> AppState \<Rightarrow> error + AppState" where
  "moveOthers ev [] s = Inr s"
| "moveOthers ev (NodeObj r # objs) s =
     andThen (onNode r (moveBy ev) s) (\<lambda>s1. andThen (fireMove r s1) (moveOthers ev objs))"
| "moveOthers ev (TransitionObj t # objs) s = moveOthers ev objs s"

text \<open>
  \<open>nodeGroup.position(this.lastPos)\<close> reads the coordinates of its argument, so
  it raises when \<open>lastPos\<close> was never assigned.
\<close>

definition restoreLastPos :: "NodeWrapper \<Rightarrow> error + NodeWrapper" where
  "restoreLastPos n =
     (case lastPos n of
        None \<Rightarrow> Inl TypeError
      | Some p \<Rightarrow> setPosition p n)"

definition onDragMove :: "MouseEvent \<Rightarrow> ref \<Rightarrow> AppState \<Rightarrow> error + AppState" where
  "onDragMove ev this s =
     (if currentTool s = Transitions then
        andThen (onNode this restoreLastPos s)
          (\<lambda>s1. Inr (updateTentativeTransitionHead (pageX ev) (pageY ev) s1))
      else if currentTool s = Select then
        andThen (fireMove this s)
          (moveOthers ev (filter (\<lambda>i. i \<noteq> NodeObj this) (selectedObjects s)))
      else Inr s)"

text \<open>
  \<open>snapToGrid\<close>: the grid cell is 50 wide; the node is moved to the rounded
  position, every transition that involves the node updates its points, and
  the rounded position is returned. The request to redraw the layer changes
  nothing here.
\<close>

definition gridCellSize :: real where
  "gridCellSize = 50"

fun updateTransitions :: "ref \<Rightarrow> TransitionWrapper list \<Rightarrow> AppState \<Rightarrow> AppState" where
  "updateTransitions this [] s = s"
| "updateTransitions this (t # ts) s =
     updateTransitions this ts
       (if involvesNode t this then logCall (UpdatePoints (transition_ref t)) s else s)"

definition snapToGrid :: "ref \<Rightarrow> AppState \<Rightarrow> error + (Vector2d \<times> AppState)" where
  "snapToGrid this s =
     andThen (nodePosition this s) (\<lambda>nodePos.
       let snappedX = Math_round (vec_x nodePos / gridCellSize) * gridCellSize;
           snappedY = Math_round (vec_y nodePos / gridCellSize) * gridCellSize
       in andThen (onNode this (setPosition \<lparr>vec_x = snappedX, vec_y = snappedY\<rparr>) s)
            (\<lambda>s1. Inr (\<lparr>vec_x = snappedX, vec_y = snappedY\<rparr>,
                        updateTransitions this (transitions s1) s1)))"

text \<open>
  The loop of \<open>onDragEnd\<close> over the selected nodes: each one is snapped, and the
  snapped position of \<open>this\<close> is kept. The list has been filtered to nodes; the
  cast of anything else to a node would call a method that does not exist.
\<close>

fun snapNodes :: "ref \<Rightarrow> SelectableObject list \<Rightarrow> Vector2d \<Rightarrow> AppState \<Rightarrow> error + (Vector2d \<times> AppState)" where
  "snapNodes this [] snappedPos s = Inr (snappedPos, s)"
| "snapNodes this (NodeObj r # objs) snappedPos s =
     andThen (snapToGrid r s)
       (\<lambda>(snapped, s1). snapNodes this objs (if r = this then snapped else snappedPos) s1)"
| "snapNodes this (TransitionObj t # objs) snappedPos s = Inl TypeError"

definition isNodeWrapper :: "SelectableObject \<Rightarrow> bool" where
  "isNodeWrapper obj = (case obj of NodeObj r \<Rightarrow> True | TransitionObj t \<Rightarrow> False)"

definition onDragEnd :: "ref \<Rightarrow> AppState \<Rightarrow> error + AppState" where
  "onDragEnd this s =
     (if currentTool s = States then Inr s
      else if currentTool s = Select \<and> snapToGridEnabled s then
        andThen
          (snapNodes this (filter isNodeWrapper (selectedObjects s)) \<lparr>vec_x = 0, vec_y = 0\<rparr> s)
          (\<lambda>(snappedPos, s1).
             let s2 = updateStartNodePosition s1 in
             if \<bar>vec_x (lastSnappedPos (heap s2 this)) - vec_x snappedPos\<bar> > 1 / 100000 \<or>
                \<bar>vec_y (lastSnappedPos (heap s2 this)) - vec_y snappedPos\<bar> > 1 / 100000
             then
               let s3 = s2\<lparr>heap := (heap s2)(this := (heap s2 this)\<lparr>lastSnappedPos := snappedPos\<rparr>)\<rparr>
               in andThen (nodePosition this s3) (\<lambda>p. Inr (completeDragStatesOperation p s3))
             else Inr s2)
      else if currentTool s = Transitions then
        Inr (endTentativeTransition s)
      else if currentTool s = Select then
        andThen (forEachNode disableShadowEffects (selectedObjects s) s)
          (\<lambda>s1. andThen (nodePosition this s1) (\<lambda>p. Inr (completeDragStatesOperation p s1)))
      else Inr s)"

section \<open>Event delivery\<close>

text \<open>
  \<open>createKonvaObjects\<close> registers the six handlers on the node's group. Konva
  delivers the events: a drag marks the group as being dragged and fires
  \<open>dragstart\<close>; on every pointer move it places the group under the pointer and
  then fires \<open>dragmove\<close>; at the end it fires \<open>dragend\<close>. (\<open>stopDrag\<close> inside
  a handler ends the drag at once; the \<open>dragend\<close> it fires reaches \<open>onDragEnd\<close> in
  the same tool mode.)
\<close>

datatype Event =
    MouseEnter ref
  | MouseLeave ref
  | Click MouseEvent ref
  | DragStart MouseEvent ref
  | DragMove MouseEvent Vector2d ref
  | DragEnd ref

definition setDragging :: "bool \<Rightarrow> NodeWrapper \<Rightarrow> error + NodeWrapper" where
  "setDragging b n = withView n (\<lambda>v. v\<lparr>nodeGroup := (nodeGroup v)\<lparr>isDragging := b\<rparr>\<rparr>)"

fun dispatch :: "Event \<Rightarrow> AppState \<Rightarrow> error + AppState" where
  "dispatch (MouseEnter r) s = onMouseEnter r s"
| "dispatch (MouseLeave r) s = onMouseLeave r s"
| "dispatch (Click ev r) s = onClick ev r s"
| "dispatch (DragStart ev r) s = andThen (onNode r (setDragging True) s) (onDragStart ev r)"
| "dispatch (DragMove ev p r) s = andThen (onNode r (setPosition p) s) (onDragMove ev r)"
| "dispatch (DragEnd r) s = andThen (onNode r (setDragging False) s) (onDragEnd r)"

fun run :: "Event list \<Rightarrow> AppState \<Rightarrow> error + AppState" where
  "run [] s = Inr s"
| "run (e # es) s = andThen (dispatch e s) (run es)"

section \<open>Notions used in the statements\<close>

text \<open>The grid point that \<open>snapToGrid\<close> computes for a position.\<close>

definition snapped :: "Vector2d \<Rightarrow> Vector2d" where
  "snapped p =
     \<lparr>vec_x = Math_round (vec_x p / gridCellSize) * gridCellSize,
      vec_y = Math_round (vec_y p / gridCellSize) * gridCellSize\<rparr>"

text \<open>A position on the grid: both coordinates are multiples of the cell size.\<close>

definition onGrid :: "Vector2d \<Rightarrow> bool" where
  "onGrid p \<longleftrightarrow> (\<exists>i j :: int. vec_x p = of_int i * gridCellSize \<and> vec_y p = of_int j * gridCellSize)"

text \<open>A node whose group has been moved to the grid point of its position.\<close>

definition snappedNode :: "NodeWrapper \<Rightarrow> NodeWrapper" where
  "snappedNode n =
     n\<lparr>view := map_option
        (\<lambda>v. v\<lparr>nodeGroup := (nodeGroup v)
           \<lparr>group_x := vec_x (snapped (position (nodeGroup v))),
            group_y := vec_y (snapped (position (nodeGroup v)))\<rparr>\<rparr>) (view n)\<rparr>"

text \<open>Every selected node has its Konva objects.\<close>

definition selectionHasViews :: "AppState \<Rightarrow> bool" where
  "selectionHasViews s \<longleftrightarrow> list_all (\<lambda>obj. case obj of NodeObj r \<Rightarrow> view (heap s r) \<noteq> None | TransitionObj t \<Rightarrow> True) (selectedObjects s)"

text \<open>
  Rebuilding a node from its serialized form: the constructor is given the
  stored label and id, and the Konva objects are created at the stored
  position. A token is rebuilt by its constructor from the stored symbol and id.
\<close>

definition node_fromSerializable :: "ColorScheme \<Rightarrow> string \<Rightarrow> SerializableState \<Rightarrow> NodeWrapper" where
  "node_fromSerializable cs uuid st =
     createKonvaObjects cs (ser_x st) (ser_y st) (NodeWrapper_new (ser_label st) (Some (ser_id st)) uuid)"

definition token_fromSerializable :: "string \<Rightarrow> SerializableToken \<Rightarrow> TokenWrapper" where
  "token_fromSerializable uuid st = TokenWrapper_new (Some (stok_symbol st)) (Some (stok_id st)) uuid"

text \<open>The rebuilt node is allocated at a reference of the heap.\<close>

definition loadNode :: "ref \<Rightarrow> string \<Rightarrow> SerializableState \<Rightarrow> AppState \<Rightarrow> AppState" where
  "loadNode r uuid st s = s\<lparr>heap := (heap s)(r := node_fromSerializable (colorScheme s) uuid st)\<rparr>"

text \<open>
  The coordinates for which the arithmetic of \<open>snapToGrid\<close> is the same on the
  reals and in binary64.
\<close>

definition inExactRange :: "Vector2d \<Rightarrow> bool" where
  "inExactRange p \<longleftrightarrow> \<bar>vec_x p\<bar> \<le> 2 ^ 52 \<and> \<bar>vec_y p\<bar> \<le> 2 ^ 52"

text \<open>A sequence of calls of \<open>setErrorState\<close> on one node.\<close>

fun setErrorStates :: "(ColorScheme \<times> bool) list \<Rightarrow> NodeWrapper \<Rightarrow> error + NodeWrapper" where
  "setErrorStates [] n = Inr n"
| "setErrorStates (c # cs) n = andThen (setErrorState (fst c) (snd c) n) (setErrorStates cs)"

text \<open>The error-overlay elements of a node's group, in order.\<close>

definition errorElements :: "NodeWrapper \<Rightarrow> KonvaChild list" where
  "errorElements n =
     (case view n of None \<Rightarrow> [] | Some v \<Rightarrow> filter isErrorElement (children (nodeGroup v)))"

section \<open>Example states\<close>

definition lightScheme :: ColorScheme where
  "lightScheme =
     \<lparr>nodeFill = ''white'', nodeStrokeColor = ''black'',
      selectedNodeStrokeColor = ''#018ED5'', nodeAcceptStrokeColor = ''black'',
      nodeLabelColor = ''black'', newConnectionGlowColor = ''#2FDFFB'',
      newConnectionShadowOpacity = 1, newConnectionShadowBlur = 10,
      nodeDragDropShadowColor = ''#000000'', nodeDragDropShadowOpacity = 1 / 2,
      nodeDragDropShadowBlur = 10\<rparr>"

text \<open>A node with Konva objects at a position, and a node without them.\<close>

definition nodeAt :: "real \<Rightarrow> real \<Rightarrow> NodeWrapper" where
  "nodeAt px py = createKonvaObjects lightScheme px py (NodeWrapper_new ''q0'' None ''uuid-0'')"

definition bareNode :: NodeWrapper where
  "bareNode = NodeWrapper_new ''q1'' (Some ''n1'') ''uuid-1''"

text \<open>
  A diagram whose node 0 is the given node; every other reference is a node
  without Konva objects. Nothing is selected and there are no transitions.
\<close>

definition diagram :: "Tool \<Rightarrow> bool \<Rightarrow> NodeWrapper \<Rightarrow> AppState" where
  "diagram tool snap n =
     \<lparr>currentTool = tool, selectedObjects = [], snapToGridEnabled = snap,
      tentativeTransitionInProgress = False, tentativeTransitionTarget = None,
      transitions = [], colorScheme = lightScheme,
      heap = (\<lambda>r. bareNode)(0 := n), calls = []\<rparr>"

definition plainEvent :: MouseEvent where
  "plainEvent = \<lparr>shiftKey = False, movementX = 0, movementY = 0, pageX = 0, pageY = 0\<rparr>"

text \<open>
  The diagram in \<open>Select\<close> mode with node 0 selected, as it is while node 0 is
  being dragged.
\<close>

definition draggedDiagram :: "bool \<Rightarrow> NodeWrapper \<Rightarrow> AppState" where
  "draggedDiagram snap n = (diagram Select snap n)\<lparr>selectedObjects := [NodeObj 0]\<rparr>"

text \<open>A drag of node 0 that ends with the pointer at a position.\<close>

definition dragTo :: "real \<Rightarrow> real \<Rightarrow> Event list" where
  "dragTo px py =
     [DragStart plainEvent 0, DragMove plainEvent \<lparr>vec_x = px, vec_y = py\<rparr> 0, DragEnd 0]"

text \<open>The node shows the shadow that \<open>enableDragDropShadow\<close> gives it.\<close>

definition dragShadowShown :: "ref \<Rightarrow> AppState \<Rightarrow> bool" where
  "dragShadowShown r s =
     (case view (heap s r) of
        None \<Rightarrow> False
      | Some v \<Rightarrow> shadowEnabled (nodeBackground v) \<and>
          shadowColor (nodeBackground v) = Some (nodeDragDropShadowColor (colorScheme s)))"

text \<open>A node after \<open>disableShadowEffects\<close>.\<close>

definition shadowless :: "NodeWrapper \<Rightarrow> NodeWrapper" where
  "shadowless n =
     n\<lparr>view := map_option (\<lambda>v. v\<lparr>nodeBackground := (nodeBackground v)\<lparr>shadowEnabled := False\<rparr>\<rparr>) (view n)\<rparr>"

text \<open>
  A tentative transition is in progress and hovers over node 0, which glows;
  nodes 1 and 2 are two more nodes on the canvas.
\<close>

definition hoverDiagram :: AppState where
  "hoverDiagram =
     \<lparr>currentTool = Transitions, selectedObjects = [], snapToGridEnabled = False,
      tentativeTransitionInProgress = True, tentativeTransitionTarget = Some 0,
      transitions = [], colorScheme = lightScheme,
      heap = (\<lambda>r. bareNode)
        (0 := (nodeAt 73 124)\<lparr>view := map_option
                 (\<lambda>v. v\<lparr>nodeBackground := (nodeBackground v)
                    \<lparr>shadowColor := Some (newConnectionGlowColor lightScheme)\<rparr>\<rparr>)
                 (view (nodeAt 73 124))\<rparr>,
         1 := nodeAt 200 200, 2 := nodeAt 300 100),
      calls = [StartTentativeTransition 2]\<rparr>"

text \<open>A token and its serialized form.\<close>

definition tokenA :: TokenWrapper where
  "tokenA = TokenWrapper_new (Some ''a'') (Some ''token-1'') ''uuid-3''"

text \<open>A mouse event with the pointer at page coordinates.\<close>

definition pointerAt :: "real \<Rightarrow> real \<Rightarrow> MouseEvent" where
  "pointerAt px py = plainEvent\<lparr>pageX := px, pageY := py\<rparr>"

section \<open>Basic facts\<close>

lemma andThen_simps [simp]:
  "andThen (Inl e) f = Inl e"
  "andThen (Inr a) f = f a"
  by (simp_all add: andThen_def)

lemmas example_defs =
  dragTo_def diagram_def draggedDiagram_def nodeAt_def bareNode_def plainEvent_def lightScheme_def
  createKonvaObjects_def NodeWrapper_new_def unnamedChild_def StrokeWidth_def SelectedStrokeWidth_def

lemmas handler_defs =
  onNode_def setDragging_def setPosition_def withView_def onDragStart_def onDragMove_def
  onDragEnd_def nodePosition_def position_def Let_def selectObject_def deselectAllObjects_def
  select_def deselect_def enableDragDropShadow_def disableShadowEffects_def
  startDragStatesOperation_def completeDragStatesOperation_def updateStartNodePosition_def
  logCall_def snapToGrid_def gridCellSize_def Math_round_def isNodeWrapper_def fireMove_def

lemma updateTransitions_closed:
  "updateTransitions this ts s =
     s\<lparr>calls := calls s @ map (\<lambda>t. UpdatePoints (transition_ref t)) (filter (\<lambda>t. involvesNode t this) ts)\<rparr>"
  by (induction ts arbitrary: s) (simp_all add: logCall_def)

lemma Math_round_nearest: "Math_round r \<le> r + 1 / 2 \<and> r - 1 / 2 < Math_round r"
  unfolding Math_round_def by linarith

lemma nodePosition_Inr: "view (heap s r) \<noteq> None \<Longrightarrow> \<exists>p. nodePosition r s = Inr p"
  by (auto simp: nodePosition_def)

lemma nodePosition_diagram:
  "nodePosition 0 (diagram tool snap (nodeAt a b)) = Inr \<lparr>vec_x = a, vec_y = b\<rparr>"
  by (simp add: nodePosition_def diagram_def nodeAt_def createKonvaObjects_def position_def)

lemma nodePosition_draggedDiagram:
  "nodePosition 0 (draggedDiagram snap (nodeAt a b)) = Inr \<lparr>vec_x = a, vec_y = b\<rparr>"
  by (simp add: nodePosition_def draggedDiagram_def diagram_def nodeAt_def createKonvaObjects_def
      position_def)

section \<open>Snapping a node to the grid\<close>

lemma snapToGrid_closed:
  assumes "nodePosition this s = Inr p"
  shows "snapToGrid this s =
    Inr (snapped p,
       s\<lparr>heap := (heap s)(this := snappedNode (heap s this)),
         calls := calls s @ map (\<lambda>t. UpdatePoints (transition_ref t))
                   (filter (\<lambda>t. involvesNode t this) (transitions s))\<rparr>)"
  using assms
  by (auto simp: snapToGrid_def nodePosition_def onNode_def setPosition_def withView_def
      snapped_def snappedNode_def position_def Let_def updateTransitions_closed
      split: option.splits)

lemma nodePosition_snappedNode:
  "nodePosition r s = Inr p \<Longrightarrow>
     nodePosition r (s\<lparr>heap := (heap s)(r := snappedNode (heap s r)), calls := cs\<rparr>) = Inr (snapped p)"
  by (auto simp: nodePosition_def snappedNode_def position_def snapped_def split: option.splits)

text \<open>
  C1. For every position of a node that has its Konva objects, with both
  coordinates of magnitude at most \<open>2^52\<close> (where binary64 and exact arithmetic
  agree), \<open>snapToGrid\<close> moves the node to
  \<open>(round(x / 50) * 50, round(y / 50) * 50)\<close> and returns that position. The
  result is the grid point nearest to the position on each axis, the higher one
  when the coordinate is exactly halfway: a node at (73, 124) goes to
  (50, 100), a node at (76, 126) to (100, 150), and a node at (75, 125) to
  (100, 150).
\<close>

theorem snapToGrid_rounds_to_nearest_grid_point:
  assumes "nodePosition this s = Inr p"
    and "inExactRange p"
    and "q = \<lparr>vec_x = Math_round (vec_x p / 50) * 50, vec_y = Math_round (vec_y p / 50) * 50\<rparr>"
  shows "(\<exists>s'. snapToGrid this s = Inr (q, s') \<and> nodePosition this s' = Inr q)
    \<and> onGrid q
    \<and> vec_x p - 25 < vec_x q \<and> vec_x q \<le> vec_x p + 25
    \<and> vec_y p - 25 < vec_y q \<and> vec_y q \<le> vec_y p + 25
    \<and> (vec_x p = 73 \<and> vec_y p = 124 \<longrightarrow> q = \<lparr>vec_x = 50, vec_y = 100\<rparr>)
    \<and> (vec_x p = 76 \<and> vec_y p = 126 \<longrightarrow> q = \<lparr>vec_x = 100, vec_y = 150\<rparr>)
    \<and> (vec_x p = 75 \<and> vec_y p = 125 \<longrightarrow> q = \<lparr>vec_x = 100, vec_y = 150\<rparr>)"
proof -
  have q: "q = snapped p"
    using assms(3) by (simp add: snapped_def gridCellSize_def)
  have moved: "\<exists>s'. snapToGrid this s = Inr (q, s') \<and> nodePosition this s' = Inr q"
    using nodePosition_snappedNode [OF assms(1)]
    by (simp add: snapToGrid_closed [OF assms(1)] q)
  have grid: "onGrid q"
    unfolding onGrid_def assms(3) Math_round_def gridCellSize_def by auto
  have near: "vec_x p - 25 < vec_x q \<and> vec_x q \<le> vec_x p + 25
      \<and> vec_y p - 25 < vec_y q \<and> vec_y q \<le> vec_y p + 25"
    using Math_round_nearest [of "vec_x p / 50"] Math_round_nearest [of "vec_y p / 50"]
    by (simp add: assms(3))
  have examples: "(vec_x p = 73 \<and> vec_y p = 124 \<longrightarrow> q = \<lparr>vec_x = 50, vec_y = 100\<rparr>)
    \<and> (vec_x p = 76 \<and> vec_y p = 126 \<longrightarrow> q = \<lparr>vec_x = 100, vec_y = 150\<rparr>)
    \<and> (vec_x p = 75 \<and> vec_y p = 125 \<longrightarrow> q = \<lparr>vec_x = 100, vec_y = 150\<rparr>)"
    by (simp add: assms(3) Math_round_def)
  from moved grid near examples show ?thesis by blast
qed

theorem snapToGrid_rounds_to_nearest_grid_point_witness:
  "(\<exists>s'. snapToGrid 0 (diagram Select True (nodeAt 73 124)) = Inr (\<lparr>vec_x = 50, vec_y = 100\<rparr>, s')
        \<and> nodePosition 0 s' = Inr \<lparr>vec_x = 50, vec_y = 100\<rparr>)
   \<and> (\<exists>s'. snapToGrid 0 (diagram Select True (nodeAt 76 126)) = Inr (\<lparr>vec_x = 100, vec_y = 150\<rparr>, s')
        \<and> nodePosition 0 s' = Inr \<lparr>vec_x = 100, vec_y = 150\<rparr>)
   \<and> (\<exists>s'. snapToGrid 0 (diagram Select True (nodeAt 75 125)) = Inr (\<lparr>vec_x = 100, vec_y = 150\<rparr>, s')
        \<and> nodePosition 0 s' = Inr \<lparr>vec_x = 100, vec_y = 150\<rparr>)"
proof -
  have range: "inExactRange \<lparr>vec_x = 73, vec_y = 124\<rparr>" "inExactRange \<lparr>vec_x = 76, vec_y = 126\<rparr>"
    "inExactRange \<lparr>vec_x = 75, vec_y = 125\<rparr>"
    by (simp_all add: inExactRange_def)
  from snapToGrid_rounds_to_nearest_grid_point
      [OF nodePosition_diagram [of Select True 73 124] range(1) refl]
    snapToGrid_rounds_to_nearest_grid_point
      [OF nodePosition_diagram [of Select True 76 126] range(2) refl]
    snapToGrid_rounds_to_nearest_grid_point
      [OF nodePosition_diagram [of Select True 75 125] range(3) refl]
  show ?thesis
    by (simp add: Math_round_def)
qed

section \<open>Serialization\<close>

text \<open>
  C5. \<open>toSerializable\<close> of a token and of a node has no side effect: the token,
  and for a node the whole state, is after the call what it was before. The
  serialized form holds exactly the identity data: a token rebuilt from its
  serialized form is the token itself, every serialized token is the
  serialized form of the token rebuilt from it, and so rebuilding a token and
  serializing again gives the serialized form of the original. For a node, the
  serialized form holds the node's id, label and position; every serialized
  state is the serialized form of the node rebuilt from it (same id, label and
  position); and so, whenever a node has a serialized form, the node rebuilt
  from it has the same serialized form.
\<close>

theorem toSerializable_round_trip:
  "snd (token_toSerializable t) = t
   \<and> token_fromSerializable uuid (fst (token_toSerializable t)) = t
   \<and> fst (token_toSerializable (token_fromSerializable uuid tst)) = tst
   \<and> fst (token_toSerializable (token_fromSerializable uuid (fst (token_toSerializable t)))) =
        fst (token_toSerializable t)
   \<and> node_toSerializable r' (loadNode r' uuid' st' s2) = Inr (st', loadNode r' uuid' st' s2)
   \<and> (node_toSerializable r s = Inr (st, s') \<longrightarrow>
        s' = s
        \<and> ser_id st = node_id (heap s r) \<and> ser_label st = labelText (heap s r)
        \<and> nodePosition r s = Inr \<lparr>vec_x = ser_x st, vec_y = ser_y st\<rparr>
        \<and> node_toSerializable r' (loadNode r' uuid' st s2) = Inr (st, loadNode r' uuid' st s2))"
proof -
  have rebuilt: "token_fromSerializable uuid (fst (token_toSerializable t)) = t"
    by (simp add: token_toSerializable_def token_fromSerializable_def TokenWrapper_new_def)
  have pure: "snd (token_toSerializable t) = t"
    by (simp add: token_toSerializable_def)
  have onto: "fst (token_toSerializable (token_fromSerializable uuid tst)) = tst"
    by (simp add: token_toSerializable_def token_fromSerializable_def TokenWrapper_new_def)
  have again: "fst (token_toSerializable (token_fromSerializable uuid (fst (token_toSerializable t)))) =
        fst (token_toSerializable t)"
    by (simp only: rebuilt)
  have load: "node_toSerializable r' (loadNode r' uuid' x s2) = Inr (x, loadNode r' uuid' x s2)" for x
    by (simp add: node_toSerializable_def loadNode_def node_fromSerializable_def
        createKonvaObjects_def NodeWrapper_new_def)
  have node: "s' = s \<and> ser_id st = node_id (heap s r) \<and> ser_label st = labelText (heap s r)
        \<and> nodePosition r s = Inr \<lparr>vec_x = ser_x st, vec_y = ser_y st\<rparr>"
    if "node_toSerializable r s = Inr (st, s')"
    using that
    by (auto simp: node_toSerializable_def nodePosition_def position_def split: option.splits)
  from pure rebuilt onto again load node show ?thesis
    by blast
qed

theorem toSerializable_round_trip_witness:
  "token_toSerializable tokenA = (\<lparr>stok_id = ''token-1'', stok_symbol = ''a''\<rparr>, tokenA)
   \<and> token_fromSerializable ''uuid-4'' \<lparr>stok_id = ''token-1'', stok_symbol = ''a''\<rparr> = tokenA
   \<and> fst (token_toSerializable (token_fromSerializable ''uuid-4''
        \<lparr>stok_id = ''token-1'', stok_symbol = ''a''\<rparr>)) = \<lparr>stok_id = ''token-1'', stok_symbol = ''a''\<rparr>
   \<and> node_toSerializable 0 (diagram Select False (nodeAt 73 124)) =
        Inr (\<lparr>ser_id = ''uuid-0'', ser_x = 73, ser_y = 124, ser_label = ''q0''\<rparr>,
             diagram Select False (nodeAt 73 124))
   \<and> node_toSerializable 1 (loadNode 1 ''uuid-2''
          \<lparr>ser_id = ''uuid-0'', ser_x = 73, ser_y = 124, ser_label = ''q0''\<rparr>
          (diagram Select False (nodeAt 73 124))) =
        Inr (\<lparr>ser_id = ''uuid-0'', ser_x = 73, ser_y = 124, ser_label = ''q0''\<rparr>,
             loadNode 1 ''uuid-2''
               \<lparr>ser_id = ''uuid-0'', ser_x = 73, ser_y = 124, ser_label = ''q0''\<rparr>
               (diagram Select False (nodeAt 73 124)))"
proof -
  have tok: "token_toSerializable tokenA = (\<lparr>stok_id = ''token-1'', stok_symbol = ''a''\<rparr>, tokenA)"
    by (simp add: token_toSerializable_def tokenA_def TokenWrapper_new_def)
  have ser: "node_toSerializable 0 (diagram Select False (nodeAt 73 124)) =
        Inr (\<lparr>ser_id = ''uuid-0'', ser_x = 73, ser_y = 124, ser_label = ''q0''\<rparr>,
             diagram Select False (nodeAt 73 124))"
    by (simp add: node_toSerializable_def diagram_def nodeAt_def createKonvaObjects_def
        NodeWrapper_new_def)
  note round_trip = toSerializable_round_trip [of tokenA "''uuid-4''"
      "\<lparr>stok_id = ''token-1'', stok_symbol = ''a''\<rparr>" 1 "''uuid-2''"
      "\<lparr>ser_id = ''uuid-0'', ser_x = 73, ser_y = 124, ser_label = ''q0''\<rparr>"
      "diagram Select False (nodeAt 73 124)" 0 "diagram Select False (nodeAt 73 124)"
      "\<lparr>ser_id = ''uuid-0'', ser_x = 73, ser_y = 124, ser_label = ''q0''\<rparr>"
      "diagram Select False (nodeAt 73 124)"]
  from round_trip have "token_fromSerializable ''uuid-4'' (fst (token_toSerializable tokenA)) = tokenA"
    by (elim conjE)
  then have rebuilt: "token_fromSerializable ''uuid-4'' \<lparr>stok_id = ''token-1'', stok_symbol = ''a''\<rparr> = tokenA"
    unfolding tok by simp
  from round_trip have onto: "fst (token_toSerializable (token_fromSerializable ''uuid-4''
        \<lparr>stok_id = ''token-1'', stok_symbol = ''a''\<rparr>)) = \<lparr>stok_id = ''token-1'', stok_symbol = ''a''\<rparr>"
    by (elim conjE)
  from round_trip ser have node: "node_toSerializable 1 (loadNode 1 ''uuid-2''
          \<lparr>ser_id = ''uuid-0'', ser_x = 73, ser_y = 124, ser_label = ''q0''\<rparr>
          (diagram Select False (nodeAt 73 124))) =
        Inr (\<lparr>ser_id = ''uuid-0'', ser_x = 73, ser_y = 124, ser_label = ''q0''\<rparr>,
             loadNode 1 ''uuid-2''
               \<lparr>ser_id = ''uuid-0'', ser_x = 73, ser_y = 124, ser_label = ''q0''\<rparr>
               (diagram Select False (nodeAt 73 124)))"
    by (elim conjE impE) assumption+
  from tok rebuilt onto ser node show ?thesis
    by (intro conjI)
qed

section \<open>The error overlay\<close>

lemma errorElements_removed: "filter isErrorElement (filter (\<lambda>c. \<not> isErrorElement c) cs) = []"
  by (induction cs) simp_all

lemma isErrorElement_marker: "isErrorElement errorIcon" "isErrorElement errorText"
  by (simp_all add: isErrorElement_def errorIcon_def errorText_def)

lemma setErrorState_view:
  assumes "view n = Some v"
  shows "\<exists>n' v'. setErrorState cs b n = Inr n' \<and> view n' = Some v'
     \<and> errorElements n' = (if b then [errorIcon, errorText] else [])
     \<and> filter (\<lambda>c. \<not> isErrorElement c) (children (nodeGroup v')) =
         filter (\<lambda>c. \<not> isErrorElement c) (children (nodeGroup v))"
  using assms
  by (simp add: setErrorState_def withView_def errorElements_def Let_def
      errorElements_removed isErrorElement_marker)

lemma setErrorStates_last:
  assumes "view n = Some v" and "cbs \<noteq> []"
  shows "\<exists>n' v'. setErrorStates cbs n = Inr n' \<and> view n' = Some v'
     \<and> errorElements n' = (if snd (last cbs) then [errorIcon, errorText] else [])
     \<and> filter (\<lambda>c. \<not> isErrorElement c) (children (nodeGroup v')) =
         filter (\<lambda>c. \<not> isErrorElement c) (children (nodeGroup v))"
  using assms
proof (induction cbs arbitrary: n v)
  case Nil
  then show ?case by simp
next
  case (Cons c cbs)
  obtain n1 v1 where n1: "setErrorState (fst c) (snd c) n = Inr n1" "view n1 = Some v1"
    "errorElements n1 = (if snd c then [errorIcon, errorText] else [])"
    "filter (\<lambda>c. \<not> isErrorElement c) (children (nodeGroup v1)) =
       filter (\<lambda>c. \<not> isErrorElement c) (children (nodeGroup v))"
    using setErrorState_view [OF Cons.prems(1)] by blast
  show ?case
  proof (cases "cbs = []")
    case True
    with n1 show ?thesis by simp
  next
    case False
    with Cons.IH [OF n1(2)] n1(1,4) show ?thesis by simp
  qed
qed

lemma count_named_errorElements:
  assumes "view n = Some v" and "errorElements n = (if b then [errorIcon, errorText] else [])"
  shows "length (filter (\<lambda>c. childName c = ''errorIcon'') (children (nodeGroup v))) = (if b then 1 else 0)"
    and "length (filter (\<lambda>c. childName c = ''errorText'') (children (nodeGroup v))) = (if b then 1 else 0)"
proof -
  have icon: "filter (\<lambda>c. childName c = ''errorIcon'') (children (nodeGroup v)) =
      filter (\<lambda>c. childName c = ''errorIcon'') (errorElements n)"
    using assms(1) by (auto simp: errorElements_def isErrorElement_def intro: filter_cong)
  have glyph: "filter (\<lambda>c. childName c = ''errorText'') (children (nodeGroup v)) =
      filter (\<lambda>c. childName c = ''errorText'') (errorElements n)"
    using assms(1) by (auto simp: errorElements_def isErrorElement_def intro: filter_cong)
  show "length (filter (\<lambda>c. childName c = ''errorIcon'') (children (nodeGroup v))) = (if b then 1 else 0)"
    unfolding icon assms(2) by (simp add: errorIcon_def errorText_def)
  show "length (filter (\<lambda>c. childName c = ''errorText'') (children (nodeGroup v))) = (if b then 1 else 0)"
    unfolding glyph assms(2) by (simp add: errorIcon_def errorText_def)
qed

text \<open>
  C6. For every node that has its Konva objects and every non-empty sequence of
  \<open>setErrorState\<close> calls, the calls succeed and afterwards the group holds
  exactly one child named \<open>errorIcon\<close> and one named \<open>errorText\<close> if the last call
  was \<open>setErrorState(true)\<close>, and none otherwise; so never more than one of each,
  and \<open>setErrorState(true)\<close> twice in a row leaves exactly one pair. The other
  children of the group are the same as before.
\<close>

theorem setErrorState_leaves_at_most_one_marker:
  assumes "view n = Some v" and "cbs \<noteq> []"
  shows "\<exists>n' v'. setErrorStates cbs n = Inr n' \<and> view n' = Some v'
     \<and> length (filter (\<lambda>c. childName c = ''errorIcon'') (children (nodeGroup v'))) =
         (if snd (last cbs) then 1 else 0)
     \<and> length (filter (\<lambda>c. childName c = ''errorText'') (children (nodeGroup v'))) =
         (if snd (last cbs) then 1 else 0)
     \<and> filter (\<lambda>c. \<not> isErrorElement c) (children (nodeGroup v')) =
         filter (\<lambda>c. \<not> isErrorElement c) (children (nodeGroup v))"
proof -
  obtain n' v' where n': "setErrorStates cbs n = Inr n'" "view n' = Some v'"
    "errorElements n' = (if snd (last cbs) then [errorIcon, errorText] else [])"
    "filter (\<lambda>c. \<not> isErrorElement c) (children (nodeGroup v')) =
       filter (\<lambda>c. \<not> isErrorElement c) (children (nodeGroup v))"
    using setErrorStates_last [OF assms] by blast
  from n'(1,2,4) count_named_errorElements [OF n'(2,3)] show ?thesis
    by blast
qed

theorem setErrorState_leaves_at_most_one_marker_witness:
  "\<exists>n' v'. setErrorStates [(lightScheme, True), (lightScheme, True)] (nodeAt 73 124) = Inr n'
     \<and> view n' = Some v'
     \<and> length (filter (\<lambda>c. childName c = ''errorIcon'') (children (nodeGroup v'))) = 1
     \<and> length (filter (\<lambda>c. childName c = ''errorText'') (children (nodeGroup v'))) = 1"
proof -
  have v: "view (nodeAt 73 124) = Some (the (view (nodeAt 73 124)))"
    by (simp add: nodeAt_def createKonvaObjects_def)
  have ne: "[(lightScheme, True), (lightScheme, True)] \<noteq> []"
    by simp
  from setErrorState_leaves_at_most_one_marker [OF v ne] show ?thesis
    by simp blast
qed

section \<open>Hovering and the tentative transition\<close>

text \<open>
  C8. On a mouse-leave event of a node in \<open>Transitions\<close> mode while a tentative
  transition is in progress: if the node is the tracked target (and has its
  Konva objects), the target is cleared and the shadow of the node is disabled,
  and nothing else changes; if the node is not the tracked target, the state is
  left as it is.
\<close>

theorem onMouseLeave_clears_only_the_tracked_target:
  assumes "currentTool s = Transitions" and "tentativeTransitionInProgress s"
  shows "(tentativeTransitionTarget s = Some this \<and> view (heap s this) = Some v \<longrightarrow>
            onMouseLeave this s =
              Inr (s\<lparr>tentativeTransitionTarget := None,
                     heap := (heap s)(this := (heap s this)
                       \<lparr>view := Some (v\<lparr>nodeBackground := (nodeBackground v)\<lparr>shadowEnabled := False\<rparr>\<rparr>)\<rparr>)\<rparr>))
       \<and> (tentativeTransitionTarget s \<noteq> Some this \<longrightarrow> onMouseLeave this s = Inr s)"
  using assms
  by (simp add: onMouseLeave_def onNode_def disableShadowEffects_def withView_def)

theorem onMouseLeave_clears_only_the_tracked_target_witness:
  "currentTool hoverDiagram = Transitions \<and> tentativeTransitionInProgress hoverDiagram
   \<and> tentativeTransitionTarget hoverDiagram = Some 0
   \<and> (\<exists>s'. onMouseLeave 0 hoverDiagram = Inr s' \<and> tentativeTransitionTarget s' = None
          \<and> map_option (\<lambda>v. shadowEnabled (nodeBackground v)) (view (heap s' 0)) = Some False)
   \<and> onMouseLeave 1 hoverDiagram = Inr hoverDiagram"
proof -
  have tool: "currentTool hoverDiagram = Transitions" and prog: "tentativeTransitionInProgress hoverDiagram"
    and target: "tentativeTransitionTarget hoverDiagram = Some 0"
    by (simp_all add: hoverDiagram_def)
  have v: "view (heap hoverDiagram 0) = Some (the (view (heap hoverDiagram 0)))"
    by (simp add: hoverDiagram_def nodeAt_def createKonvaObjects_def)
  have other: "tentativeTransitionTarget hoverDiagram \<noteq> Some 1"
    by (simp add: hoverDiagram_def)
  from onMouseLeave_clears_only_the_tracked_target [OF tool prog, of 0 "the (view (heap hoverDiagram 0))"]
    onMouseLeave_clears_only_the_tracked_target [OF tool prog, of 1 "the (view (heap hoverDiagram 0))"]
    tool prog target v other
  show ?thesis by simp
qed

section \<open>Dragging in States mode\<close>

text \<open>
  C9. On a drag-start event of a node (with its Konva objects) while the
  current tool is \<open>States\<close>, the handler succeeds, the node's group is no longer
  being dragged, and the only change is to the node itself (\<open>lastPos\<close> and the
  dragging flag): the selection, the tentative transition and the record of
  collaborator calls (operation log included) are as before. The drag-end
  handler in \<open>States\<close> mode returns the state unchanged.
\<close>

theorem onDragStart_in_States_mode_only_stops_the_drag:
  assumes "currentTool s = States" and "view (heap s this) = Some v"
  shows "\<exists>s'. onDragStart ev this s = Inr s'
      \<and> s' = s\<lparr>heap := (heap s)(this := (heap s this)
                 \<lparr>lastPos := Some (position (nodeGroup v)),
                  view := Some (v\<lparr>nodeGroup := (nodeGroup v)\<lparr>isDragging := False\<rparr>\<rparr>)\<rparr>)\<rparr>
      \<and> selectedObjects s' = selectedObjects s
      \<and> tentativeTransitionInProgress s' = tentativeTransitionInProgress s
      \<and> tentativeTransitionTarget s' = tentativeTransitionTarget s
      \<and> calls s' = calls s
      \<and> onDragEnd this s' = Inr s'"
  using assms
  by (simp add: onDragStart_def nodePosition_def onNode_def stopDrag_def withView_def Let_def
      onDragEnd_def)

theorem onDragStart_in_States_mode_only_stops_the_drag_witness:
  "currentTool (diagram States True (nodeAt 73 124)) = States
   \<and> (\<exists>s'. onDragStart plainEvent 0 (diagram States True (nodeAt 73 124)) = Inr s'
        \<and> selectedObjects s' = [] \<and> calls s' = []
        \<and> \<not> tentativeTransitionInProgress s' \<and> tentativeTransitionTarget s' = None
        \<and> map_option (\<lambda>v. isDragging (nodeGroup v)) (view (heap s' 0)) = Some False
        \<and> onDragEnd 0 s' = Inr s')"
proof -
  have tool: "currentTool (diagram States True (nodeAt 73 124)) = States"
    by (simp add: diagram_def)
  have v: "view (heap (diagram States True (nodeAt 73 124)) 0) =
      Some (the (view (heap (diagram States True (nodeAt 73 124)) 0)))"
    by (simp add: diagram_def nodeAt_def createKonvaObjects_def)
  have facts: "selectedObjects (diagram States True (nodeAt 73 124)) = []"
    "calls (diagram States True (nodeAt 73 124)) = []"
    "\<not> tentativeTransitionInProgress (diagram States True (nodeAt 73 124))"
    "tentativeTransitionTarget (diagram States True (nodeAt 73 124)) = None"
    by (simp_all add: diagram_def)
  from onDragStart_in_States_mode_only_stops_the_drag [OF tool v, of plainEvent]
  obtain s' where s': "onDragStart plainEvent 0 (diagram States True (nodeAt 73 124)) = Inr s'"
    and upd: "s' = (diagram States True (nodeAt 73 124))
       \<lparr>heap := (heap (diagram States True (nodeAt 73 124)))
          (0 := (heap (diagram States True (nodeAt 73 124)) 0)
             \<lparr>lastPos := Some (position (nodeGroup (the (view (heap (diagram States True (nodeAt 73 124)) 0))))),
              view := Some ((the (view (heap (diagram States True (nodeAt 73 124)) 0)))
                 \<lparr>nodeGroup := (nodeGroup (the (view (heap (diagram States True (nodeAt 73 124)) 0))))
                    \<lparr>isDragging := False\<rparr>\<rparr>)\<rparr>)\<rparr>"
    and rest: "selectedObjects s' = selectedObjects (diagram States True (nodeAt 73 124))"
      "tentativeTransitionInProgress s' = tentativeTransitionInProgress (diagram States True (nodeAt 73 124))"
      "tentativeTransitionTarget s' = tentativeTransitionTarget (diagram States True (nodeAt 73 124))"
      "calls s' = calls (diagram States True (nodeAt 73 124))"
      "onDragEnd 0 s' = Inr s'"
    by blast
  have drag: "map_option (\<lambda>v. isDragging (nodeGroup v)) (view (heap s' 0)) = Some False"
    unfolding upd by simp
  from tool s' rest facts drag show ?thesis by simp
qed

section \<open>The end of a drag in Select mode\<close>

lemma snapped_idem: "snapped (snapped p) = snapped p"
  by (simp add: snapped_def gridCellSize_def Math_round_def)

lemma snappedNode_idem: "snappedNode (snappedNode n) = snappedNode n"
proof (cases "view n")
  case None
  then show ?thesis by (simp add: snappedNode_def)
next
  case (Some v)
  have "snapped (snapped (position (nodeGroup v))) = snapped (position (nodeGroup v))"
    by (rule snapped_idem)
  then show ?thesis using Some
    by (simp add: snappedNode_def position_def snapped_def)
qed

lemma view_snappedNode: "view (snappedNode n) = None \<longleftrightarrow> view n = None"
  by (simp add: snappedNode_def)

lemma lastSnappedPos_snappedNode: "lastSnappedPos (snappedNode n) = lastSnappedPos n"
  by (simp add: snappedNode_def)

lemma snapNodes_closed:
  assumes "\<forall>obj \<in> set objs. \<exists>r. obj = NodeObj r \<and> view (heap s r) \<noteq> None"
  shows "\<exists>cs sp'. set cs \<subseteq> range UpdatePoints
     \<and> snapNodes this objs sp s =
         Inr (sp', s\<lparr>heap := (\<lambda>r. if NodeObj r \<in> set objs then snappedNode (heap s r) else heap s r),
                    calls := calls s @ cs\<rparr>)
     \<and> (NodeObj this \<notin> set objs \<longrightarrow> sp' = sp)
     \<and> (\<forall>p. NodeObj this \<in> set objs \<longrightarrow> nodePosition this s = Inr p \<longrightarrow> sp' = snapped p)"
  using assms
proof (induction objs arbitrary: s sp)
  case Nil
  show ?case by (rule exI [of _ "[]"]) simp
next
  case (Cons obj objs)
  from Cons.prems obtain r where obj: "obj = NodeObj r" and vr: "view (heap s r) \<noteq> None"
    by auto
  from vr obtain p where p: "nodePosition r s = Inr p"
    using nodePosition_Inr by blast
  define cs1 where "cs1 = map (\<lambda>t. UpdatePoints (transition_ref t))
                   (filter (\<lambda>t. involvesNode t r) (transitions s))"
  define s1 where "s1 = s\<lparr>heap := (heap s)(r := snappedNode (heap s r)), calls := calls s @ cs1\<rparr>"
  have snap: "snapToGrid r s = Inr (snapped p, s1)"
    by (simp add: snapToGrid_closed [OF p] s1_def cs1_def)
  have hv: "view (heap s1 q) = None \<longleftrightarrow> view (heap s q) = None" for q
    by (simp add: s1_def view_snappedNode)
  have views1: "\<forall>obj \<in> set objs. \<exists>r. obj = NodeObj r \<and> view (heap s1 r) \<noteq> None"
    using Cons.prems unfolding hv by simp
  let ?sp1 = "if r = this then snapped p else sp"
  from Cons.IH [OF views1, of ?sp1] obtain cs2 sp' where
    cs2: "set cs2 \<subseteq> range UpdatePoints"
    and run: "snapNodes this objs ?sp1 s1 =
         Inr (sp', s1\<lparr>heap := (\<lambda>q. if NodeObj q \<in> set objs then snappedNode (heap s1 q) else heap s1 q),
                    calls := calls s1 @ cs2\<rparr>)"
    and notin: "NodeObj this \<notin> set objs \<longrightarrow> sp' = ?sp1"
    and isin: "\<forall>p'. NodeObj this \<in> set objs \<longrightarrow> nodePosition this s1 = Inr p' \<longrightarrow> sp' = snapped p'"
    by blast
  have heap_eq: "(\<lambda>q. if NodeObj q \<in> set objs then snappedNode (heap s1 q) else heap s1 q)
      = (\<lambda>q. if NodeObj q \<in> set (obj # objs) then snappedNode (heap s q) else heap s q)"
    by (rule ext) (simp add: s1_def obj snappedNode_idem)
  have cs: "set (cs1 @ cs2) \<subseteq> range UpdatePoints"
    using cs2 by (auto simp: cs1_def)
  have eq: "snapNodes this (obj # objs) sp s =
      Inr (sp', s\<lparr>heap := (\<lambda>q. if NodeObj q \<in> set (obj # objs) then snappedNode (heap s q) else heap s q),
                 calls := calls s @ cs1 @ cs2\<rparr>)"
    using run unfolding heap_eq by (simp add: obj snap) (simp add: s1_def)
  have r1: "NodeObj this \<notin> set (obj # objs) \<longrightarrow> sp' = sp"
    using notin by (auto simp: obj)
  have r2: "\<forall>p'. NodeObj this \<in> set (obj # objs) \<longrightarrow> nodePosition this s = Inr p' \<longrightarrow> sp' = snapped p'"
  proof (intro allI impI)
    fix p' assume mem: "NodeObj this \<in> set (obj # objs)" and p': "nodePosition this s = Inr p'"
    show "sp' = snapped p'"
    proof (cases "r = this")
      case True
      with p p' have pp: "p' = p" by simp
      have pos1: "nodePosition this s1 = Inr (snapped p)"
        using nodePosition_snappedNode [OF p] True by (simp add: s1_def)
      show ?thesis
      proof (cases "NodeObj this \<in> set objs")
        case True
        with isin pos1 show ?thesis by (simp add: pp snapped_idem)
      next
        case False
        with notin \<open>r = this\<close> show ?thesis by (simp add: pp)
      qed
    next
      case False
      with mem have m: "NodeObj this \<in> set objs" by (simp add: obj)
      have "nodePosition this s1 = Inr p'"
        using p' False by (simp add: nodePosition_def s1_def)
      with isin m show ?thesis by blast
    qed
  qed
  from cs eq r1 r2 show ?case
    by (intro exI [of _ "cs1 @ cs2"] exI [of _ sp']) simp
qed

lemma selectionHasViews_iff:
  "selectionHasViews s \<longleftrightarrow> (\<forall>r. NodeObj r \<in> set (selectedObjects s) \<longrightarrow> view (heap s r) \<noteq> None)"
  by (auto simp: selectionHasViews_def list_all_iff split: SelectableObject.splits)

lemma filter_isNodeWrapper_views:
  assumes "selectionHasViews s"
  shows "\<forall>obj \<in> set (filter isNodeWrapper (selectedObjects s)). \<exists>r. obj = NodeObj r \<and> view (heap s r) \<noteq> None"
  using assms
  by (auto simp: selectionHasViews_iff isNodeWrapper_def split: SelectableObject.splits)

lemma NodeObj_in_filter: "NodeObj r \<in> set (filter isNodeWrapper objs) \<longleftrightarrow> NodeObj r \<in> set objs"
  by (simp add: isNodeWrapper_def)

lemma onDragEnd_snap:
  assumes tool: "currentTool s = Select" and snap: "snapToGridEnabled s"
    and views: "selectionHasViews s"
    and p: "nodePosition this s = Inr p"
    and sp: "sp = (if NodeObj this \<in> set (selectedObjects s) then snapped p else \<lparr>vec_x = 0, vec_y = 0\<rparr>)"
    and pf: "pf = (if NodeObj this \<in> set (selectedObjects s) then snapped p else p)"
    and H: "H = (\<lambda>r. if NodeObj r \<in> set (selectedObjects s) then snappedNode (heap s r) else heap s r)"
    and commit: "commit \<longleftrightarrow> \<bar>vec_x (lastSnappedPos (heap s this)) - vec_x sp\<bar> > 1 / 100000 \<or>
             \<bar>vec_y (lastSnappedPos (heap s this)) - vec_y sp\<bar> > 1 / 100000"
  shows "\<exists>s' cs. onDragEnd this s = Inr s' \<and> set cs \<subseteq> range UpdatePoints
     \<and> calls s' = calls s @ cs @ UpdateStartNodePosition #
          (if commit then [CompleteDragStatesOperation pf] else [])
     \<and> heap s' = (if commit then H(this := (H this)\<lparr>lastSnappedPos := sp\<rparr>) else H)
     \<and> s'\<lparr>heap := heap s, calls := calls s\<rparr> = s"
proof -
  let ?objs = "filter isNodeWrapper (selectedObjects s)"
  from snapNodes_closed [OF filter_isNodeWrapper_views [OF views], of this "\<lparr>vec_x = 0, vec_y = 0\<rparr>"]
  obtain cs sp' where cs: "set cs \<subseteq> range UpdatePoints"
    and run: "snapNodes this ?objs \<lparr>vec_x = 0, vec_y = 0\<rparr> s =
         Inr (sp', s\<lparr>heap := (\<lambda>r. if NodeObj r \<in> set ?objs then snappedNode (heap s r) else heap s r),
                    calls := calls s @ cs\<rparr>)"
    and notin: "NodeObj this \<notin> set ?objs \<longrightarrow> sp' = \<lparr>vec_x = 0, vec_y = 0\<rparr>"
    and isin: "\<forall>p. NodeObj this \<in> set ?objs \<longrightarrow> nodePosition this s = Inr p \<longrightarrow> sp' = snapped p"
    by blast
  have sp': "sp' = sp"
    using notin isin p by (simp add: sp isNodeWrapper_def)
  have Heq: "(\<lambda>r. if NodeObj r \<in> set ?objs then snappedNode (heap s r) else heap s r) = H"
    by (simp add: H isNodeWrapper_def)
  have lsp: "lastSnappedPos (H this) = lastSnappedPos (heap s this)"
    by (simp add: H lastSnappedPos_snappedNode)
  have pos: "nodePosition this s' = Inr pf" if "view (heap s' this) = view (H this)" for s'
    using p that
    by (auto simp: nodePosition_def H pf snappedNode_def position_def snapped_def split: option.splits)
  note run' = run [unfolded Heq sp']
  have "onDragEnd this s = Inr
         (if commit
          then s\<lparr>heap := H(this := (H this)\<lparr>lastSnappedPos := sp\<rparr>),
                 calls := calls s @ cs @ [UpdateStartNodePosition, CompleteDragStatesOperation pf]\<rparr>
          else s\<lparr>heap := H, calls := calls s @ cs @ [UpdateStartNodePosition]\<rparr>)"
    unfolding onDragEnd_def commit using tool snap
    by (simp add: run' updateStartNodePosition_def logCall_def lsp Let_def pos
        completeDragStatesOperation_def)
  with cs show ?thesis by (cases commit) auto
qed

lemma shadowless_idem: "shadowless (shadowless n) = shadowless n"
  by (cases "view n") (simp_all add: shadowless_def)

lemma disableShadowEffects_shadowless:
  "view n \<noteq> None \<Longrightarrow> disableShadowEffects n = Inr (shadowless n)"
  by (auto simp: disableShadowEffects_def withView_def shadowless_def)

lemma forEachNode_disableShadowEffects:
  assumes "\<forall>r. NodeObj r \<in> set objs \<longrightarrow> view (heap s r) \<noteq> None"
  shows "forEachNode disableShadowEffects objs s =
     Inr (s\<lparr>heap := (\<lambda>r. if NodeObj r \<in> set objs then shadowless (heap s r) else heap s r)\<rparr>)"
  using assms
proof (induction objs arbitrary: s)
  case Nil
  show ?case by simp
next
  case (Cons obj objs)
  show ?case
  proof (cases obj)
    case (NodeObj r)
    define s1 where "s1 = s\<lparr>heap := (heap s)(r := shadowless (heap s r))\<rparr>"
    have step: "onNode r disableShadowEffects s = Inr s1"
      using Cons.prems NodeObj by (simp add: onNode_def disableShadowEffects_shadowless s1_def)
    have "\<forall>q. NodeObj q \<in> set objs \<longrightarrow> view (heap s1 q) \<noteq> None"
      using Cons.prems by (simp add: s1_def shadowless_def)
    from Cons.IH [OF this]
    have "forEachNode disableShadowEffects objs s1 =
       Inr (s1\<lparr>heap := (\<lambda>q. if NodeObj q \<in> set objs then shadowless (heap s1 q) else heap s1 q)\<rparr>)" .
    moreover have "(\<lambda>q. if NodeObj q \<in> set objs then shadowless (heap s1 q) else heap s1 q)
        = (\<lambda>q. if NodeObj q \<in> set (obj # objs) then shadowless (heap s q) else heap s q)"
      by (rule ext) (simp add: s1_def NodeObj shadowless_idem)
    ultimately show ?thesis
      by (simp add: NodeObj step) (simp add: s1_def)
  next
    case (TransitionObj t)
    have "\<forall>q. NodeObj q \<in> set objs \<longrightarrow> view (heap s q) \<noteq> None"
      using Cons.prems by simp
    from Cons.IH [OF this] show ?thesis
      by (simp add: TransitionObj)
  qed
qed

lemma onDragEnd_no_snap:
  assumes tool: "currentTool s = Select" and snap: "\<not> snapToGridEnabled s"
    and views: "selectionHasViews s"
    and p: "nodePosition this s = Inr p"
  shows "onDragEnd this s =
     Inr (s\<lparr>heap := (\<lambda>r. if NodeObj r \<in> set (selectedObjects s) then shadowless (heap s r) else heap s r),
            calls := calls s @ [CompleteDragStatesOperation p]\<rparr>)"
proof -
  have v: "\<forall>r. NodeObj r \<in> set (selectedObjects s) \<longrightarrow> view (heap s r) \<noteq> None"
    using views by (simp add: selectionHasViews_iff)
  have pos: "nodePosition this
      (s\<lparr>heap := (\<lambda>r. if NodeObj r \<in> set (selectedObjects s) then shadowless (heap s r) else heap s r)\<rparr>) = Inr p"
    using p by (auto simp: nodePosition_def shadowless_def split: option.splits)
  show ?thesis
    unfolding onDragEnd_def using tool snap
    by (simp add: forEachNode_disableShadowEffects [OF v] pos completeDragStatesOperation_def logCall_def)
qed

lemma snapped_onGrid: "onGrid p \<Longrightarrow> snapped p = p"
  by (auto simp: onGrid_def snapped_def gridCellSize_def Math_round_def)

lemma onGrid_snapped: "onGrid (snapped p)"
  unfolding onGrid_def snapped_def Math_round_def by auto

lemma onGrid_apart:
  assumes "onGrid p" and "onGrid q"
  shows "(\<bar>vec_x q - vec_x p\<bar> > 1 / 100000 \<or> \<bar>vec_y q - vec_y p\<bar> > 1 / 100000) \<longleftrightarrow> p \<noteq> q"
proof -
  from assms obtain i j k l :: int
    where p: "vec_x p = of_int i * 50" "vec_y p = of_int j * 50"
      and q: "vec_x q = of_int k * 50" "vec_y q = of_int l * 50"
    by (auto simp: onGrid_def gridCellSize_def)
  have far: "\<bar>real_of_int a * 50 - real_of_int b * 50\<bar> > 1 / 100000 \<longleftrightarrow> a \<noteq> b" for a b :: int
  proof (cases "a = b")
    case True
    then show ?thesis by simp
  next
    case False
    then have "1 \<le> \<bar>a - b\<bar>" by simp
    then have "1 \<le> \<bar>real_of_int a - real_of_int b\<bar>"
      by (metis of_int_1_le_iff of_int_abs of_int_diff)
    then have "1 / 100000 < \<bar>real_of_int a * 50 - real_of_int b * 50\<bar>"
      by linarith
    then show ?thesis using False by simp
  qed
  have eq: "p = q \<longleftrightarrow> i = k \<and> j = l"
    using p q by (auto simp: Vector2d.equality)
  show ?thesis
    unfolding eq p q far by auto
qed

lemma onDragEnd_snap_selected:
  assumes tool: "currentTool s = Select" and snap: "snapToGridEnabled s"
    and views: "selectionHasViews s"
    and mem: "NodeObj this \<in> set (selectedObjects s)"
    and p: "nodePosition this s = Inr p"
    and commit: "commit \<longleftrightarrow> \<bar>vec_x (lastSnappedPos (heap s this)) - vec_x (snapped p)\<bar> > 1 / 100000 \<or>
             \<bar>vec_y (lastSnappedPos (heap s this)) - vec_y (snapped p)\<bar> > 1 / 100000"
  shows "\<exists>s' cs. onDragEnd this s = Inr s' \<and> set cs \<subseteq> range UpdatePoints
     \<and> calls s' = calls s @ cs @ UpdateStartNodePosition #
          (if commit then [CompleteDragStatesOperation (snapped p)] else [])
     \<and> nodePosition this s' = Inr (snapped p)
     \<and> lastSnappedPos (heap s' this) = (if commit then snapped p else lastSnappedPos (heap s this))"
proof -
  have c: "commit \<longleftrightarrow>
      \<bar>vec_x (lastSnappedPos (heap s this)) -
        vec_x (if NodeObj this \<in> set (selectedObjects s) then snapped p else \<lparr>vec_x = 0, vec_y = 0\<rparr>)\<bar> > 1 / 100000 \<or>
      \<bar>vec_y (lastSnappedPos (heap s this)) -
        vec_y (if NodeObj this \<in> set (selectedObjects s) then snapped p else \<lparr>vec_x = 0, vec_y = 0\<rparr>)\<bar> > 1 / 100000"
    using mem commit by simp
  from onDragEnd_snap [OF tool snap views p refl refl refl c]
  obtain s' cs where r: "onDragEnd this s = Inr s'" "set cs \<subseteq> range UpdatePoints"
    "calls s' = calls s @ cs @ UpdateStartNodePosition #
          (if commit then [CompleteDragStatesOperation (if NodeObj this \<in> set (selectedObjects s) then snapped p else p)] else [])"
    "heap s' = (if commit then (\<lambda>r. if NodeObj r \<in> set (selectedObjects s) then snappedNode (heap s r) else heap s r)
         (this := ((\<lambda>r. if NodeObj r \<in> set (selectedObjects s) then snappedNode (heap s r) else heap s r) this)
            \<lparr>lastSnappedPos := (if NodeObj this \<in> set (selectedObjects s) then snapped p else \<lparr>vec_x = 0, vec_y = 0\<rparr>)\<rparr>)
       else (\<lambda>r. if NodeObj r \<in> set (selectedObjects s) then snappedNode (heap s r) else heap s r))"
    by blast
  have hp: "heap s' this = (if commit then (snappedNode (heap s this))\<lparr>lastSnappedPos := snapped p\<rparr>
      else snappedNode (heap s this))"
    using r(4) mem by simp
  have pos: "nodePosition this s' = Inr (snapped p)"
    using p unfolding nodePosition_def hp
    by (auto simp: snappedNode_def position_def snapped_def split: option.splits)
  have lsp: "lastSnappedPos (heap s' this) = (if commit then snapped p else lastSnappedPos (heap s this))"
    unfolding hp by (simp add: lastSnappedPos_snappedNode)
  from r(1,2,3) pos lsp mem show ?thesis
    by (intro exI [of _ s'] exI [of _ cs]) simp
qed

text \<open>
  C2. The claim is that the end of a drag in \<open>Select\<close> mode removes the drag
  shadow from every selected node whether or not snap-to-grid is enabled. On
  the code, a drag of node 0 from (60, 110) to (73, 124) with snap-to-grid
  enabled ends with node 0 selected, snapped to (50, 100) and still showing the
  drag shadow; the same drag with snap-to-grid disabled ends with the shadow
  disabled.
\<close>

theorem onDragEnd_with_snapping_keeps_the_drag_shadow:
  "map_sum id (dragShadowShown 0) (run (dragTo 73 124) (diagram Select True (nodeAt 60 110))) = Inr True
   \<and> map_sum id selectedObjects (run (dragTo 73 124) (diagram Select True (nodeAt 60 110))) = Inr [NodeObj 0]
   \<and> map_sum id (nodePosition 0) (run (dragTo 73 124) (diagram Select True (nodeAt 60 110))) =
        Inr (Inr \<lparr>vec_x = 50, vec_y = 100\<rparr>)
   \<and> map_sum id (dragShadowShown 0) (run (dragTo 73 124) (diagram Select False (nodeAt 60 110))) = Inr False"
  by (simp add: example_defs handler_defs dragShadowShown_def)

text \<open>
  C3, as claimed, fails: a drag of node 0 from (60, 110) to (73, 124) in
  \<open>Select\<close> mode with snap-to-grid disabled makes three collaborator calls, none
  of which is \<open>updateStartNodePosition\<close>.
\<close>

theorem onDragEnd_without_snapping_skips_updateStartNodePosition:
  "map_sum id currentTool (run (dragTo 73 124) (diagram Select False (nodeAt 60 110))) = Inr Select
   \<and> map_sum id calls (run (dragTo 73 124) (diagram Select False (nodeAt 60 110))) =
     Inr [StartDragStatesOperation (Some \<lparr>vec_x = 60, vec_y = 110\<rparr>), FireMove 0,
          CompleteDragStatesOperation \<lparr>vec_x = 73, vec_y = 124\<rparr>]"
  by (simp add: example_defs handler_defs)

text \<open>
  C3, amended. At the end of a drag in \<open>Select\<close> mode, the dragged node and
  every selected node having their Konva objects, \<open>onDragEnd\<close> succeeds, and it
  calls \<open>updateStartNodePosition\<close> if snap-to-grid is enabled and does not call
  it if snap-to-grid is disabled.
\<close>

theorem onDragEnd_Select_updates_start_node_iff_snapping:
  assumes "currentTool s = Select" and "selectionHasViews s" and "nodePosition this s = Inr p"
  shows "\<exists>s' cs. onDragEnd this s = Inr s' \<and> calls s' = calls s @ cs
      \<and> (UpdateStartNodePosition \<in> set cs \<longleftrightarrow> snapToGridEnabled s)"
proof (cases "snapToGridEnabled s")
  case True
  from onDragEnd_snap [OF assms(1) True assms(2,3) refl refl refl refl]
  obtain s' cs where "onDragEnd this s = Inr s'"
    and "calls s' = calls s @ cs @ UpdateStartNodePosition #
          (if \<bar>vec_x (lastSnappedPos (heap s this)) - vec_x (if NodeObj this \<in> set (selectedObjects s) then snapped p else \<lparr>vec_x = 0, vec_y = 0\<rparr>)\<bar> > 1 / 100000 \<or>
             \<bar>vec_y (lastSnappedPos (heap s this)) - vec_y (if NodeObj this \<in> set (selectedObjects s) then snapped p else \<lparr>vec_x = 0, vec_y = 0\<rparr>)\<bar> > 1 / 100000
           then [CompleteDragStatesOperation (if NodeObj this \<in> set (selectedObjects s) then snapped p else p)] else [])"
    by blast
  then show ?thesis using True
    by (intro exI [of _ s']) simp
next
  case False
  from onDragEnd_no_snap [OF assms(1) False assms(2,3)] False show ?thesis
    by simp
qed

theorem onDragEnd_Select_updates_start_node_iff_snapping_witness:
  "(\<exists>s' cs. onDragEnd 0 (draggedDiagram True (nodeAt 73 124)) = Inr s' \<and> calls s' = cs
        \<and> UpdateStartNodePosition \<in> set cs)
   \<and> (\<exists>s' cs. onDragEnd 0 (draggedDiagram False (nodeAt 73 124)) = Inr s' \<and> calls s' = cs
        \<and> UpdateStartNodePosition \<notin> set cs)"
proof -
  have tool: "currentTool (draggedDiagram b (nodeAt 73 124)) = Select" for b
    by (simp add: draggedDiagram_def diagram_def)
  have views: "selectionHasViews (draggedDiagram b (nodeAt 73 124))" for b
    by (simp add: selectionHasViews_def draggedDiagram_def diagram_def nodeAt_def createKonvaObjects_def)
  have snap: "snapToGridEnabled (draggedDiagram b (nodeAt 73 124)) = b"
    and log: "calls (draggedDiagram b (nodeAt 73 124)) = []" for b
    by (simp_all add: draggedDiagram_def diagram_def)
  from onDragEnd_Select_updates_start_node_iff_snapping [OF tool views nodePosition_draggedDiagram, of True]
    onDragEnd_Select_updates_start_node_iff_snapping [OF tool views nodePosition_draggedDiagram, of False]
  show ?thesis
    unfolding snap log by simp
qed

text \<open>
  C4. Snapping a node that already lies on a grid point returns the same
  position, and the end of a drag there should not commit a move. On the code,
  a new node created on the grid point (50, 100) is picked up and released
  where it is (drag start, drag end, no move) in \<open>Select\<close> mode with snap-to-grid
  enabled: \<open>snapToGrid\<close> returns (50, 100) and the node is still at (50, 100)
  after the drag, yet \<open>completeDragStatesOperation\<close> is called, because the
  snapped position is compared with \<open>lastSnappedPos\<close>, which is (0, 0) for a
  new node, and not with the position the node had.
\<close>

theorem unmoved_node_on_grid_point_is_committed:
  "nodePosition 0 (diagram Select True (nodeAt 50 100)) = Inr \<lparr>vec_x = 50, vec_y = 100\<rparr>
   \<and> onGrid \<lparr>vec_x = 50, vec_y = 100\<rparr>
   \<and> map_sum id fst (snapToGrid 0 (diagram Select True (nodeAt 50 100))) =
        Inr \<lparr>vec_x = 50, vec_y = 100\<rparr>
   \<and> map_sum id (nodePosition 0)
        (run [DragStart plainEvent 0, DragEnd 0] (diagram Select True (nodeAt 50 100))) =
        Inr (Inr \<lparr>vec_x = 50, vec_y = 100\<rparr>)
   \<and> map_sum id calls
        (run [DragStart plainEvent 0, DragEnd 0] (diagram Select True (nodeAt 50 100))) =
        Inr [StartDragStatesOperation (Some \<lparr>vec_x = 50, vec_y = 100\<rparr>),
             UpdateStartNodePosition,
             CompleteDragStatesOperation \<lparr>vec_x = 50, vec_y = 100\<rparr>]"
proof -
  have "snapped \<lparr>vec_x = 50, vec_y = 100\<rparr> = \<lparr>vec_x = 50, vec_y = 100\<rparr>"
    by (simp add: snapped_def gridCellSize_def Math_round_def)
  with onGrid_snapped [of "\<lparr>vec_x = 50, vec_y = 100\<rparr>"]
  have "onGrid \<lparr>vec_x = 50, vec_y = 100\<rparr>" by simp
  then show ?thesis
    by (simp add: example_defs handler_defs)
qed

text \<open>
  C10. A node is constructed with \<open>lastSnappedPos = (0, 0)\<close>. At the end of a
  drag in \<open>Select\<close> mode with snap-to-grid enabled, of a selected node whose
  \<open>lastSnappedPos\<close> still has the value it was constructed with, \<open>onDragEnd\<close>
  succeeds and calls \<open>completeDragStatesOperation\<close> exactly when the snapped
  position is not the origin, wherever the node was before the drag.
\<close>

theorem first_snapped_drag_commits_unless_at_origin:
  assumes "currentTool s = Select" and "snapToGridEnabled s" and "selectionHasViews s"
    and "NodeObj this \<in> set (selectedObjects s)"
    and "nodePosition this s = Inr p"
    and "lastSnappedPos (heap s this) = lastSnappedPos (NodeWrapper_new lbl ident uuid)"
  shows "lastSnappedPos (NodeWrapper_new lbl ident uuid) = \<lparr>vec_x = 0, vec_y = 0\<rparr>
     \<and> (\<exists>s' cs. onDragEnd this s = Inr s' \<and> calls s' = calls s @ cs
           \<and> ((\<exists>q. CompleteDragStatesOperation q \<in> set cs) \<longleftrightarrow> snapped p \<noteq> \<lparr>vec_x = 0, vec_y = 0\<rparr>))"
proof -
  have l0: "lastSnappedPos (heap s this) = \<lparr>vec_x = 0, vec_y = 0\<rparr>"
    using assms(6) by (simp add: NodeWrapper_new_def)
  have og: "onGrid \<lparr>vec_x = 0, vec_y = 0\<rparr>"
    by (simp add: onGrid_def)
  define commit where "commit \<longleftrightarrow> \<bar>vec_x (lastSnappedPos (heap s this)) - vec_x (snapped p)\<bar> > 1 / 100000 \<or>
             \<bar>vec_y (lastSnappedPos (heap s this)) - vec_y (snapped p)\<bar> > 1 / 100000"
  have c: "commit \<longleftrightarrow> snapped p \<noteq> \<lparr>vec_x = 0, vec_y = 0\<rparr>"
    unfolding commit_def l0 using onGrid_apart [OF onGrid_snapped og, of p] by simp
  from onDragEnd_snap_selected [OF assms(1-5) commit_def]
  obtain s' cs where r: "onDragEnd this s = Inr s'" "set cs \<subseteq> range UpdatePoints"
    "calls s' = calls s @ cs @ UpdateStartNodePosition #
          (if commit then [CompleteDragStatesOperation (snapped p)] else [])"
    by blast
  have "(\<exists>q. CompleteDragStatesOperation q \<in> set (cs @ UpdateStartNodePosition #
          (if commit then [CompleteDragStatesOperation (snapped p)] else []))) \<longleftrightarrow> commit"
    using r(2) by auto
  with r(1,3) c have "\<exists>s' cs. onDragEnd this s = Inr s' \<and> calls s' = calls s @ cs
           \<and> ((\<exists>q. CompleteDragStatesOperation q \<in> set cs) \<longleftrightarrow> snapped p \<noteq> \<lparr>vec_x = 0, vec_y = 0\<rparr>)"
    by (intro exI [of _ s'] exI [of _ "cs @ UpdateStartNodePosition #
          (if commit then [CompleteDragStatesOperation (snapped p)] else [])"]) simp
  then show ?thesis by (simp add: NodeWrapper_new_def)
qed

theorem first_snapped_drag_commits_unless_at_origin_witness:
  "(\<exists>s' cs. onDragEnd 0 (draggedDiagram True (nodeAt 10 (- 10))) = Inr s' \<and> calls s' = cs
        \<and> snapped \<lparr>vec_x = 10, vec_y = - 10\<rparr> = \<lparr>vec_x = 0, vec_y = 0\<rparr>
        \<and> (\<forall>q. CompleteDragStatesOperation q \<notin> set cs))
   \<and> (\<exists>s' cs. onDragEnd 0 (draggedDiagram True (nodeAt 50 100)) = Inr s' \<and> calls s' = cs
        \<and> snapped \<lparr>vec_x = 50, vec_y = 100\<rparr> = \<lparr>vec_x = 50, vec_y = 100\<rparr>
        \<and> (\<exists>q. CompleteDragStatesOperation q \<in> set cs))
   \<and> map_sum id calls (run [DragStart plainEvent 0, DragEnd 0] (diagram Select True (nodeAt 50 100))) =
        Inr [StartDragStatesOperation (Some \<lparr>vec_x = 50, vec_y = 100\<rparr>), UpdateStartNodePosition,
             CompleteDragStatesOperation \<lparr>vec_x = 50, vec_y = 100\<rparr>]"
proof -
  have still: "map_sum id calls (run [DragStart plainEvent 0, DragEnd 0] (diagram Select True (nodeAt 50 100))) =
        Inr [StartDragStatesOperation (Some \<lparr>vec_x = 50, vec_y = 100\<rparr>), UpdateStartNodePosition,
             CompleteDragStatesOperation \<lparr>vec_x = 50, vec_y = 100\<rparr>]"
    by (simp add: example_defs handler_defs)
  have tool: "currentTool (draggedDiagram True (nodeAt a b)) = Select"
    and snap: "snapToGridEnabled (draggedDiagram True (nodeAt a b))"
    and mem: "NodeObj 0 \<in> set (selectedObjects (draggedDiagram True (nodeAt a b)))"
    and log: "calls (draggedDiagram True (nodeAt a b)) = []"
    and lsp: "lastSnappedPos (heap (draggedDiagram True (nodeAt a b)) 0) =
        lastSnappedPos (NodeWrapper_new ''q0'' None ''uuid-0'')" for a b
    by (simp_all add: draggedDiagram_def diagram_def nodeAt_def createKonvaObjects_def)
  have views: "selectionHasViews (draggedDiagram True (nodeAt a b))" for a b
    by (simp add: selectionHasViews_def draggedDiagram_def diagram_def nodeAt_def createKonvaObjects_def)
  have s1: "snapped \<lparr>vec_x = 10, vec_y = - 10\<rparr> = \<lparr>vec_x = 0, vec_y = 0\<rparr>"
    and s2: "snapped \<lparr>vec_x = 50, vec_y = 100\<rparr> = \<lparr>vec_x = 50, vec_y = 100\<rparr>"
    by (simp_all add: snapped_def gridCellSize_def Math_round_def)
  from first_snapped_drag_commits_unless_at_origin [OF tool snap views mem nodePosition_draggedDiagram lsp, of 10 "- 10"]
    first_snapped_drag_commits_unless_at_origin [OF tool snap views mem nodePosition_draggedDiagram lsp, of 50 100]
    still
  show ?thesis
    unfolding log s1 s2 by simp
qed

section \<open>Dragging in Transitions mode\<close>

lemma dragMove_Transitions:
  assumes "currentTool s = Transitions" and "view (heap s this) = Some v"
    and "lastPos (heap s this) = Some p0"
  shows "dispatch (DragMove e q this) s =
     Inr (s\<lparr>heap := (heap s)(this := (heap s this)
              \<lparr>view := Some (v\<lparr>nodeGroup := (nodeGroup v)\<lparr>group_x := vec_x p0, group_y := vec_y p0\<rparr>\<rparr>)\<rparr>),
            calls := calls s @ [UpdateTentativeTransitionHead (pageX e) (pageY e)]\<rparr>)"
  using assms
  by (simp add: onNode_def setPosition_def withView_def onDragMove_def restoreLastPos_def
      updateTentativeTransitionHead_def logCall_def)

lemma dragMoves_Transitions:
  assumes "currentTool s = Transitions" and "view (heap s this) = Some v"
    and "lastPos (heap s this) = Some p0"
  shows "\<exists>s'. run (map (\<lambda>m. DragMove (fst m) (snd m) this) moves) s = Inr s'
     \<and> (moves \<noteq> [] \<longrightarrow> nodePosition this s' = Inr p0)
     \<and> (\<forall>r. r \<noteq> this \<longrightarrow> heap s' r = heap s r)
     \<and> calls s' = calls s @ map (\<lambda>m. UpdateTentativeTransitionHead (pageX (fst m)) (pageY (fst m))) moves
     \<and> s'\<lparr>heap := heap s, calls := calls s\<rparr> = s"
  using assms
proof (induction moves arbitrary: s v)
  case Nil
  then show ?case by simp
next
  case (Cons m moves)
  define v1 where "v1 = v\<lparr>nodeGroup := (nodeGroup v)\<lparr>group_x := vec_x p0, group_y := vec_y p0\<rparr>\<rparr>"
  define s1 where "s1 = s\<lparr>heap := (heap s)(this := (heap s this)\<lparr>view := Some v1\<rparr>),
            calls := calls s @ [UpdateTentativeTransitionHead (pageX (fst m)) (pageY (fst m))]\<rparr>"
  have step: "dispatch (DragMove (fst m) (snd m) this) s = Inr s1"
    using dragMove_Transitions [OF Cons.prems] by (simp add: s1_def v1_def)
  have inv: "currentTool s1 = Transitions" "view (heap s1 this) = Some v1" "lastPos (heap s1 this) = Some p0"
    using Cons.prems by (simp_all add: s1_def)
  have pos1: "nodePosition this s1 = Inr p0"
    by (simp add: nodePosition_def s1_def v1_def position_def)
  from Cons.IH [OF inv] obtain s' where r:
    "run (map (\<lambda>m. DragMove (fst m) (snd m) this) moves) s1 = Inr s'"
    "moves \<noteq> [] \<longrightarrow> nodePosition this s' = Inr p0"
    "\<forall>r. r \<noteq> this \<longrightarrow> heap s' r = heap s1 r"
    "calls s' = calls s1 @ map (\<lambda>m. UpdateTentativeTransitionHead (pageX (fst m)) (pageY (fst m))) moves"
    "s'\<lparr>heap := heap s1, calls := calls s1\<rparr> = s1"
    by blast
  have pos: "nodePosition this s' = Inr p0"
  proof (cases "moves = []")
    case True
    with r(1) pos1 show ?thesis by simp
  next
    case False
    with r(2) show ?thesis by simp
  qed
  have frame: "s'\<lparr>heap := heap s, calls := calls s\<rparr> = s"
  proof -
    have "s'\<lparr>heap := heap s, calls := calls s\<rparr> =
        (s'\<lparr>heap := heap s1, calls := calls s1\<rparr>)\<lparr>heap := heap s, calls := calls s\<rparr>"
      by simp
    also have "\<dots> = s" unfolding r(5) by (simp add: s1_def)
    finally show ?thesis .
  qed
  have runall: "run (map (\<lambda>m. DragMove (fst m) (snd m) this) (m # moves)) s = Inr s'"
    using r(1) by (simp add: step del: dispatch.simps)
  have others: "\<forall>r. r \<noteq> this \<longrightarrow> heap s' r = heap s r"
    using r(3) by (simp add: s1_def)
  have log: "calls s' = calls s @
      map (\<lambda>m. UpdateTentativeTransitionHead (pageX (fst m)) (pageY (fst m))) (m # moves)"
    using r(4) by (simp add: s1_def)
  from runall pos others log frame show ?case by blast
qed

text \<open>
  C7. When a node (with its Konva objects) is dragged while the current tool
  is \<open>Transitions\<close>, the drag-start event succeeds and, after any sequence of
  drag-move events of that node, wherever the pointer has taken the group, the
  node is at the position it had when the drag started; no other node has
  changed, and each drag-move event has passed the page coordinates of the
  pointer to \<open>updateTentativeTransitionHead\<close> and made no other call.
\<close>

theorem node_stays_put_while_dragging_in_Transitions_mode:
  assumes "currentTool s = Transitions" and "nodePosition this s = Inr p0"
  shows "\<exists>s1. dispatch (DragStart ev this) s = Inr s1
     \<and> (\<forall>moves. \<exists>s2. run (map (\<lambda>m. DragMove (fst m) (snd m) this) moves) s1 = Inr s2
             \<and> nodePosition this s2 = Inr p0
             \<and> (\<forall>r. r \<noteq> this \<longrightarrow> heap s2 r = heap s r)
             \<and> calls s2 = calls s1 @
                  map (\<lambda>m. UpdateTentativeTransitionHead (pageX (fst m)) (pageY (fst m))) moves)"
proof -
  from assms(2) obtain v where v: "view (heap s this) = Some v" and p0: "p0 = position (nodeGroup v)"
    by (auto simp: nodePosition_def split: option.splits)
  define v1 where "v1 = v\<lparr>nodeGroup := (nodeGroup v)\<lparr>isDragging := True\<rparr>\<rparr>"
  define s1 where "s1 = startTentativeTransition this
      (s\<lparr>heap := (heap s)(this := (heap s this)\<lparr>view := Some v1, lastPos := Some p0\<rparr>)\<rparr>)"
  have start: "dispatch (DragStart ev this) s = Inr s1"
    using assms(1) v
    by (simp add: onNode_def setDragging_def withView_def onDragStart_def nodePosition_def
        Let_def s1_def v1_def p0 position_def)
  have inv: "currentTool s1 = Transitions" "view (heap s1 this) = Some v1" "lastPos (heap s1 this) = Some p0"
    using assms(1) by (simp_all add: s1_def startTentativeTransition_def logCall_def)
  have pos1: "nodePosition this s1 = Inr p0"
    by (simp add: nodePosition_def inv v1_def p0 position_def)
  have others: "heap s1 r = heap s r" if "r \<noteq> this" for r
    using that by (simp add: s1_def startTentativeTransition_def logCall_def)
  have "\<exists>s2. run (map (\<lambda>m. DragMove (fst m) (snd m) this) moves) s1 = Inr s2
             \<and> nodePosition this s2 = Inr p0
             \<and> (\<forall>r. r \<noteq> this \<longrightarrow> heap s2 r = heap s r)
             \<and> calls s2 = calls s1 @
                  map (\<lambda>m. UpdateTentativeTransitionHead (pageX (fst m)) (pageY (fst m))) moves"
    for moves
  proof (cases "moves = []")
    case True
    with pos1 others show ?thesis by simp
  next
    case False
    with dragMoves_Transitions [OF inv, of moves] others show ?thesis by auto
  qed
  with start show ?thesis by blast
qed

theorem node_stays_put_while_dragging_in_Transitions_mode_witness:
  "\<exists>s1. dispatch (DragStart plainEvent 0) (diagram Transitions False (nodeAt 73 124)) = Inr s1
     \<and> (\<exists>s2. run [DragMove (pointerAt 210 160) \<lparr>vec_x = 200, vec_y = 150\<rparr> 0,
                  DragMove (pointerAt 310 110) \<lparr>vec_x = 300, vec_y = 100\<rparr> 0] s1 = Inr s2
           \<and> nodePosition 0 s2 = Inr \<lparr>vec_x = 73, vec_y = 124\<rparr>
           \<and> calls s2 = calls s1 @
               [UpdateTentativeTransitionHead 210 160, UpdateTentativeTransitionHead 310 110])"
proof -
  have tool: "currentTool (diagram Transitions False (nodeAt 73 124)) = Transitions"
    by (simp add: diagram_def)
  from node_stays_put_while_dragging_in_Transitions_mode [OF tool nodePosition_diagram, of plainEvent]
  obtain s1 where start: "dispatch (DragStart plainEvent 0) (diagram Transitions False (nodeAt 73 124)) = Inr s1"
    and moves: "\<And>moves. \<exists>s2. run (map (\<lambda>m. DragMove (fst m) (snd m) 0) moves) s1 = Inr s2
             \<and> nodePosition 0 s2 = Inr \<lparr>vec_x = 73, vec_y = 124\<rparr>
             \<and> (\<forall>r. r \<noteq> 0 \<longrightarrow> heap s2 r = heap (diagram Transitions False (nodeAt 73 124)) r)
             \<and> calls s2 = calls s1 @
                  map (\<lambda>m. UpdateTentativeTransitionHead (pageX (fst m)) (pageY (fst m))) moves"
    by blast
  from moves [of "[(pointerAt 210 160, \<lparr>vec_x = 200, vec_y = 150\<rparr>),
      (pointerAt 310 110, \<lparr>vec_x = 300, vec_y = 100\<rparr>)]"]
  have "\<exists>s2. run [DragMove (pointerAt 210 160) \<lparr>vec_x = 200, vec_y = 150\<rparr> 0,
                  DragMove (pointerAt 310 110) \<lparr>vec_x = 300, vec_y = 100\<rparr> 0] s1 = Inr s2
           \<and> nodePosition 0 s2 = Inr \<lparr>vec_x = 73, vec_y = 124\<rparr>
           \<and> calls s2 = calls s1 @
               [UpdateTentativeTransitionHead 210 160, UpdateTentativeTransitionHead 310 110]"
    by (simp add: pointerAt_def plainEvent_def del: run.simps) blast
  with start show ?thesis by blast
qed

end
